theory Spec2Isabelle
  imports Main "HOL-Library.Char_ord"
begin

section \<open>Results and errors\<close>

text \<open>
  The program is \<^verbatim>\<open>sample-parser.py\<close>: a rule table, a tokenizer built on Python's
  \<^verbatim>\<open>re\<close>, a recursive-descent parser and a formatter. Text is modelled as a list of
  \<^typ>\<open>char\<close>, so the model covers the code points below 256; on these the classes
  \<^verbatim>\<open>\s\<close> and \<^verbatim>\<open>\d\<close> and the line boundaries of \<^verbatim>\<open>str.splitlines\<close> are written out.
\<close>

record token =
  tok_type :: string
  tok_variant :: string
  tok_string :: string
  tok_start :: int
  tok_end :: int
  tok_line :: int

text \<open>
  The exceptions the code can raise. \<^verbatim>\<open>assert i == len(line)\<close> has no message, so the
  assertion error carries nothing; \<^verbatim>\<open>TokenError\<close> carries the token of its message and
  \<^verbatim>\<open>NotImplementedError\<close> the variant; a \<^verbatim>\<open>TypeError\<close> carries its message.
\<close>

datatype error =
    AssertionError
  | TokenError token
  | NotImplementedError string
  | AttributeError
  | TypeError string
  | IndexError
  | UnboundLocalError

text \<open>
  A call either returns a value, raises, or does not come back: \<open>Unfinished\<close> stands for
  a loop that never ends and for a recursion that was given too little fuel.
\<close>

datatype 'a res = Ret 'a | Raise error | Unfinished

definition and_then :: "'a res \<Rightarrow> ('a \<Rightarrow> 'b res) \<Rightarrow> 'b res" where
  "and_then r f = (case r of Ret x \<Rightarrow> f x | Raise e \<Rightarrow> Raise e | Unfinished \<Rightarrow> Unfinished)"

definition lift :: "error + 'a \<Rightarrow> 'a res" where
  "lift r = (case r of Inl e \<Rightarrow> Raise e | Inr x \<Rightarrow> Ret x)"

section \<open>Token rule table\<close>

text \<open>
  The regular expressions of the table use literals, character classes under \<^verbatim>\<open>+\<close> and
  \<^verbatim>\<open>*\<close>, sequence, alternation and an optional group. \<open>matches r s\<close> lists the lengths
  of the matches of \<open>r\<close> at the start of \<open>s\<close> in the order in which a backtracking
  matcher tries them: greedy repetition from the longest down, the left alternative
  before the right, the optional group before the empty match.
\<close>

datatype rx =
    Lit string
  | Plus "char \<Rightarrow> bool"
  | Star "char \<Rightarrow> bool"
  | Seq rx rx
  | Alt rx rx
  | Opt rx

fun matches :: "rx \<Rightarrow> string \<Rightarrow> nat list" where
  "matches (Lit l) s = (if take (length l) s = l then [length l] else [])"
| "matches (Plus c) s = rev [1..<Suc (length (takeWhile c s))]"
| "matches (Star c) s = rev [0..<Suc (length (takeWhile c s))]"
| "matches (Seq a b) s = concat (map (\<lambda>n. map (\<lambda>m. n + m) (matches b (drop n s))) (matches a s))"
| "matches (Alt a b) s = matches a s @ matches b s"
| "matches (Opt a) s = matches a s @ [0]"

definition is_space :: "char \<Rightarrow> bool" where
  \<comment> \<open>\<^verbatim>\<open>\s\<close> on a str pattern: the code points below 256 for which \<^verbatim>\<open>str.isspace\<close> holds\<close>
  "is_space c = (c \<in> {CHR 0x09, CHR 0x0A, CHR 0x0B, CHR 0x0C, CHR 0x0D, CHR 0x1C, CHR 0x1D,
     CHR 0x1E, CHR 0x1F, CHR 0x20, CHR 0x85, CHR 0xA0})"

definition is_digit :: "char \<Rightarrow> bool" where
  \<comment> \<open>\<^verbatim>\<open>\d\<close>: below 256 the decimal digits are \<^verbatim>\<open>0\<close> to \<^verbatim>\<open>9\<close>\<close>
  "is_digit c = (CHR ''0'' \<le> c \<and> c \<le> CHR ''9'')"

definition is_word_char :: "char \<Rightarrow> bool" where
  \<comment> \<open>the class \<^verbatim>\<open>[a-zA-Z_\\]\<close>: letters, underscore and the backslash\<close>
  "is_word_char c = ((CHR ''a'' \<le> c \<and> c \<le> CHR ''z'') \<or> (CHR ''A'' \<le> c \<and> c \<le> CHR ''Z'')
     \<or> c = CHR ''_'' \<or> c = CHR 0x5C)"

text \<open>A matcher of the table: a literal string, or a pattern (a string starting \<^verbatim>\<open>re:\<close>).\<close>

datatype matcher = Literal string | Re rx

definition tokens :: "(string \<times> (string \<times> matcher) list) list" where
  "tokens = [
    (''operator'', [
      (''arrow'', Literal ''->''),
      (''assign'', Literal '':=''),
      (''add'', Literal ''+''),
      (''minus'', Literal ''-''),
      (''divide'', Literal ''/''),
      (''multiply'', Literal ''*''),
      (''mod'', Literal ''%''),
      (''and'', Literal ''&&''),
      (''or'', Literal ''||''),
      (''xor'', Literal ''^''),
      (''bitwiseAnd'', Literal ''&''),
      (''bitwiseOr'', Literal ''|''),
      (''bitwiseXor'', Literal ''^''),
      (''equals'', Literal ''=''),
      (''notEquals'', Literal ''!=''),
      (''equalsIgnoreCase'', Literal ''<=>''),
      (''greaterOrEqual'', Literal ''>=''),
      (''lessOrEqual'', Literal ''<=''),
      (''least'', Literal ''<=''),
      (''greater'', Literal ''>''),
      (''lesser'', Literal ''<''),
      (''concat'', Literal ''+'')]),
    (''open'', [
      (''larray'', Literal ''@(''),
      (''lparen'', Literal ''(''),
      (''lcurly'', Literal ''{''),
      (''lsquare'', Literal ''['')]),
    (''close'', [
      (''rparen'', Literal '')''),
      (''rcurly'', Literal ''}''),
      (''rsquare'', Literal '']'')]),
    (''sep'', [
      (''comma'', Literal '','')]),
    (''string'', [
      (''apostrophe'', Literal [CHR 0x27]),
      (''quotes'', Literal [CHR 0x22]),
      (''escape'', Literal [CHR 0x5C])]),
    (''space'', [
      (''space'', Re (Plus is_space))]),
    (''number'', [
      (''number'', Re (Alt (Plus is_digit) (Seq (Star is_digit) (Seq (Lit ''.'') (Plus is_digit)))))]),
    (''word'', [
      (''item'', Re (Seq (Lit ''#item'') (Opt (Seq (Lit ''_'') (Plus is_digit))))),
      (''index'', Re (Seq (Lit ''#index'') (Opt (Seq (Lit ''_'') (Plus is_digit))))),
      (''word'', Re (Plus is_word_char))])]"

section \<open>Tokenizer\<close>

definition pattern_of :: "matcher \<Rightarrow> rx" where
  \<comment> \<open>\<^verbatim>\<open>_pattern\<close>: a pattern as it is, a literal escaped (so matched verbatim)\<close>
  "pattern_of m = (case m of Re r \<Rightarrow> r | Literal s \<Rightarrow> Lit s)"

text \<open>
  \<^verbatim>\<open>token_pattern\<close> joins one named group per rule with \<^verbatim>\<open>|\<close>, in the order of the
  table. The group's name is \<^verbatim>\<open>type__variant\<close>; the model keeps the pair.
\<close>

type_synonym pattern = "(string \<times> string \<times> rx) list"

definition token_pattern :: "(string \<times> (string \<times> matcher) list) list \<Rightarrow> pattern" where
  "token_pattern tks =
     concat (map (\<lambda>(type, type_tokens).
       map (\<lambda>(variant, variant_pattern). (type, variant, pattern_of variant_pattern)) type_tokens) tks)"

text \<open>
  \<^verbatim>\<open>pattern.match(line, i)\<close>: the alternation is tried at position \<open>i\<close> branch by
  branch; the first branch with a match wins, with its first match. The result is the
  group that matched and the end of the match.
\<close>

fun match_groups :: "pattern \<Rightarrow> string \<Rightarrow> (string \<times> string \<times> nat) option" where
  "match_groups [] s = None"
| "match_groups ((type, variant, r) # gs) s =
     (case matches r s of [] \<Rightarrow> match_groups gs s | n # _ \<Rightarrow> Some (type, variant, n))"

definition pattern_match :: "pattern \<Rightarrow> string \<Rightarrow> nat \<Rightarrow> (string \<times> string \<times> nat) option" where
  "pattern_match p line i =
     (case match_groups p (drop i line) of None \<Rightarrow> None
      | Some (type, variant, n) \<Rightarrow> Some (type, variant, i + n))"

lemma matches_le: "n \<in> set (matches r s) \<Longrightarrow> n \<le> length s"
proof (induction r arbitrary: n s)
  case (Lit l)
  then have "take (length l) s = l" and n: "n = length l"
    by (auto split: if_splits)
  then have "length (take (length l) s) = length l"
    by simp
  with n show ?case
    by simp
next
  case (Plus c)
  then show ?case
    using length_takeWhile_le [of c s] by auto
next
  case (Star c)
  then show ?case
    using length_takeWhile_le [of c s] by auto
next
  case (Seq a b)
  then show ?case by fastforce
qed auto

lemma matches_hd_le: "matches r s = n # ms \<Longrightarrow> n \<le> length s"
  by (rule matches_le [of n r s]) simp

lemma match_groups_le: "match_groups p s = Some (t, v, n) \<Longrightarrow> n \<le> length s"
  by (induction p s rule: match_groups.induct) (auto split: list.splits dest: matches_hd_le)

lemma pattern_match_bounds:
  "pattern_match p line i = Some (t, v, e) \<Longrightarrow> i \<le> e \<and> e \<le> i + (length line - i)"
  by (auto simp: pattern_match_def split: option.splits dest!: match_groups_le)

text \<open>
  \<^verbatim>\<open>str.splitlines\<close>: the line boundaries below code point 256 are \<^verbatim>\<open>\n\<close>, \<^verbatim>\<open>\r\<close>,
  \<^verbatim>\<open>\r\n\<close>, \<^verbatim>\<open>\v\<close>, \<^verbatim>\<open>\f\<close>, \<^verbatim>\<open>\x1c\<close>, \<^verbatim>\<open>\x1d\<close>, \<^verbatim>\<open>\x1e\<close> and \<^verbatim>\<open>\x85\<close>. The boundaries are
  dropped, and a text that ends in one has no empty last line.
\<close>

definition is_linebreak :: "char \<Rightarrow> bool" where
  "is_linebreak c = (c \<in> {CHR 0x0A, CHR 0x0B, CHR 0x0C, CHR 0x0D, CHR 0x1C, CHR 0x1D, CHR 0x1E, CHR 0x85})"

fun splitlines_from :: "string \<Rightarrow> string \<Rightarrow> string list" where
  "splitlines_from cur [] = (if cur = [] then [] else [cur])"
| "splitlines_from cur [c] = (if is_linebreak c then [cur] else [cur @ [c]])"
| "splitlines_from cur (c # d # cs) =
     (if c = CHR 0x0D \<and> d = CHR 0x0A then cur # splitlines_from [] cs
      else if is_linebreak c then cur # splitlines_from [] (d # cs)
      else splitlines_from (cur @ [c]) (d # cs))"

definition splitlines :: "string \<Rightarrow> string list" where
  "splitlines text = splitlines_from [] text"

text \<open>
  The loop \<^verbatim>\<open>while m := pattern.match(line, i)\<close> of \<^verbatim>\<open>tokenize\<close>, from position \<open>i\<close>:
  the tokens it yields and the position at which it stops. A match object is always
  true, so an empty match would yield the same token forever: the loop is then
  \<open>Unfinished\<close>.
\<close>

function tokenize_line :: "pattern \<Rightarrow> int \<Rightarrow> string \<Rightarrow> nat \<Rightarrow> (token list \<times> nat) res" where
  "tokenize_line p lineno line i =
     (case pattern_match p line i of
        None \<Rightarrow> Ret ([], i)
      | Some (type, variant, e) \<Rightarrow>
          if e = i then Unfinished
          else and_then (tokenize_line p lineno line e)
            (\<lambda>(ts, k). Ret (\<lparr>tok_type = type, tok_variant = variant,
               tok_string = take (e - i) (drop i line), tok_start = int i, tok_end = int e,
               tok_line = lineno\<rparr> # ts, k)))"
  by pat_completeness auto
termination
proof (relation "measure (\<lambda>(p, lineno, line, i). length line - i)")
  show "wf (measure (\<lambda>(p, lineno, line, i). length line - i))"
    by simp
next
  fix p :: pattern and lineno :: int and line :: string and i :: nat
  fix x2 x y xa ya
  assume m: "pattern_match p line i = Some x2" "(x, y) = x2" "(xa, ya) = y"
    and ne: "ya \<noteq> i"
  from m have pm: "pattern_match p line i = Some (x, xa, ya)"
    by auto
  then have "i \<le> ya" and "ya \<le> i + (length line - i)"
    using pattern_match_bounds [of p line i x xa ya] by simp_all
  with ne show "((p, lineno, line, ya), (p, lineno, line, i)) \<in> measure (\<lambda>(p, lineno, line, i). length line - i)"
    by simp
qed

text \<open>
  \<^verbatim>\<open>list(tokenize(lines, pattern))\<close>, as \<^verbatim>\<open>parse\<close> consumes the generator: the tokens of
  all lines in order, or the assertion error of the first line whose scan stops before
  the line's end.
\<close>

fun tokenize_lines :: "pattern \<Rightarrow> int \<Rightarrow> string list \<Rightarrow> token list res" where
  "tokenize_lines p lineno [] = Ret []"
| "tokenize_lines p lineno (line # ls) =
     and_then (tokenize_line p lineno line 0)
       (\<lambda>(ts, i). if i \<noteq> length line then Raise AssertionError
          else and_then (tokenize_lines p (lineno + 1) ls) (\<lambda>ts'. Ret (ts @ ts')))"

definition tokenize :: "string \<Rightarrow> pattern \<Rightarrow> token list res" where
  "tokenize lines p = tokenize_lines p 1 (splitlines lines)"

section \<open>Properties of the tokenizer\<close>

declare tokenize_line.simps [simp del]

lemma and_then_Ret: "and_then r f = Ret y \<longleftrightarrow> (\<exists>x. r = Ret x \<and> f x = Ret y)"
  by (cases r) (simp_all add: and_then_def)

lemma and_then_simps [simp]:
  "and_then (Ret x) f = f x"
  "and_then (Raise e) f = Raise e"
  "and_then Unfinished f = Unfinished"
  by (simp_all add: and_then_def)

text \<open>
  \<open>tiles line a ts b\<close>: the tokens \<open>ts\<close> cover the span from offset \<open>a\<close> to offset \<open>b\<close>
  of the line, one after the other: the first starts at \<open>a\<close>, each next one starts where
  the one before ended, the last ends at \<open>b\<close>; every token is not empty and its string
  is the text of its span.
\<close>

fun tiles :: "string \<Rightarrow> nat \<Rightarrow> token list \<Rightarrow> nat \<Rightarrow> bool" where
  "tiles line a [] b = (a = b)"
| "tiles line a (t # ts) b =
     (tok_start t = int a \<and> int a < tok_end t \<and>
      tok_string t = take (nat (tok_end t) - a) (drop a line) \<and>
      tiles line (nat (tok_end t)) ts b)"

definition covers :: "string \<Rightarrow> token list \<Rightarrow> bool" where
  "covers line ts = tiles line 0 ts (length line)"

lemma tiles_le: "tiles line a ts b \<Longrightarrow> a \<le> b"
  by (induction ts arbitrary: a) (auto, fastforce)

lemma tiles_concat:
  "tiles line a ts b \<Longrightarrow> concat (map tok_string ts) = take (b - a) (drop a line)"
proof (induction ts arbitrary: a)
  case Nil
  then show ?case by simp
next
  case (Cons t ts)
  let ?e = "nat (tok_end t)"
  from Cons.prems have a: "a < ?e" and s: "tok_string t = take (?e - a) (drop a line)"
    and rest: "tiles line ?e ts b"
    by auto
  from rest have eb: "?e \<le> b" by (rule tiles_le)
  have "take (b - a) (drop a line) = take (?e - a) (drop a line) @ take (b - ?e) (drop ?e line)"
  proof -
    have "b - a = (?e - a) + (b - ?e)" using a eb by simp
    moreover have "drop (?e - a) (drop a line) = drop ?e line" using a by simp
    ultimately show ?thesis by (simp add: take_add)
  qed
  with s Cons.IH [OF rest] show ?case by simp
qed

lemma tokenize_line_tiles:
  "tokenize_line p lineno line i = Ret (ts, k) \<Longrightarrow> tiles line i ts k"
proof (induction p lineno line i arbitrary: ts k rule: tokenize_line.induct)
  case (1 p lineno line i)
  show ?case
  proof (cases "pattern_match p line i")
    case None
    with "1.prems" show ?thesis
      by (simp add: tokenize_line.simps)
  next
    case (Some m)
    obtain t v e where m: "m = (t, v, e)" by (cases m)
    from Some m "1.prems" have ne: "e \<noteq> i"
      by (auto simp: tokenize_line.simps)
    from Some m have ie: "i \<le> e"
      using pattern_match_bounds [of p line i t v e] by simp
    from Some m ne "1.prems" obtain ts' where
      rest: "tokenize_line p lineno line e = Ret (ts', k)" and
      ts: "ts = \<lparr>tok_type = t, tok_variant = v, tok_string = take (e - i) (drop i line),
        tok_start = int i, tok_end = int e, tok_line = lineno\<rparr> # ts'"
      by (auto simp: tokenize_line.simps and_then_Ret)
    from "1.IH" [OF Some _ _ ne rest] m have "tiles line e ts' k"
      by simp
    with ts ie ne show ?thesis by simp
  qed
qed

lemma tokenize_line_lineno:
  "tokenize_line p lineno line i = Ret (ts, k) \<Longrightarrow> \<forall>t \<in> set ts. tok_line t = lineno"
proof (induction p lineno line i arbitrary: ts k rule: tokenize_line.induct)
  case (1 p lineno line i)
  show ?case
  proof (cases "pattern_match p line i")
    case None
    with "1.prems" show ?thesis
      by (simp add: tokenize_line.simps)
  next
    case (Some m)
    obtain t v e where m: "m = (t, v, e)" by (cases m)
    from Some m "1.prems" have ne: "e \<noteq> i"
      by (auto simp: tokenize_line.simps)
    from Some m ne "1.prems" obtain ts' where
      rest: "tokenize_line p lineno line e = Ret (ts', k)" and
      ts: "ts = \<lparr>tok_type = t, tok_variant = v, tok_string = take (e - i) (drop i line),
        tok_start = int i, tok_end = int e, tok_line = lineno\<rparr> # ts'"
      by (auto simp: tokenize_line.simps and_then_Ret)
    from "1.IH" [OF Some _ _ ne rest] m have "\<forall>t \<in> set ts'. tok_line t = lineno"
      by simp
    with ts show ?thesis by simp
  qed
qed

text \<open>
  The tokens of a text, line by line: \<open>line_tokens lineno ls tss\<close> pairs each line with
  the tokens that cover it, all of them carrying the line's number.
\<close>

fun line_tokens :: "int \<Rightarrow> string list \<Rightarrow> token list list \<Rightarrow> bool" where
  "line_tokens lineno [] tss = (tss = [])"
| "line_tokens lineno (line # ls) tss =
     (case tss of [] \<Rightarrow> False
      | ts # tss' \<Rightarrow> covers line ts \<and> concat (map tok_string ts) = line \<and>
          list_all (\<lambda>t. tok_line t = lineno) ts \<and> line_tokens (lineno + 1) ls tss')"

lemma tokenize_lines_cover:
  "tokenize_lines p lineno ls = Ret toks \<Longrightarrow> \<exists>tss. toks = concat tss \<and> line_tokens lineno ls tss"
proof (induction ls arbitrary: lineno toks)
  case Nil
  then show ?case by simp
next
  case (Cons line ls)
  from Cons.prems obtain ts k ts' where
    l: "tokenize_line p lineno line 0 = Ret (ts, k)" and k: "k = length line" and
    r: "tokenize_lines p (lineno + 1) ls = Ret ts'" and toks: "toks = ts @ ts'"
    by (auto simp: and_then_Ret split: if_splits)
  from l k have t: "tiles line 0 ts (length line)"
    using tokenize_line_tiles by blast
  then have c: "concat (map tok_string ts) = line"
    using tiles_concat [of line 0 ts "length line"] by simp
  from l have n: "list_all (\<lambda>t. tok_line t = lineno) ts"
    using tokenize_line_lineno [of p lineno line 0 ts k] by (simp add: list_all_iff)
  from Cons.IH [OF r] obtain tss where "ts' = concat tss" "line_tokens (lineno + 1) ls tss"
    by blast
  with t c n toks have "toks = concat (ts # tss) \<and> line_tokens lineno (line # ls) (ts # tss)"
    by (simp add: covers_def)
  then show ?case by blast
qed

text \<open>The pattern that \<^verbatim>\<open>main\<close> compiles from the table and hands to every call.\<close>

definition pattern :: pattern where
  "pattern = token_pattern tokens"

text \<open>
  A syntactic check that a regular expression has no empty match; every rule of the
  table passes it, so the scan of a line always moves on and comes to an end.
\<close>

fun never_empty :: "rx \<Rightarrow> bool" where
  "never_empty (Lit l) = (l \<noteq> [])"
| "never_empty (Plus c) = True"
| "never_empty (Star c) = False"
| "never_empty (Seq a b) = (never_empty a \<or> never_empty b)"
| "never_empty (Alt a b) = (never_empty a \<and> never_empty b)"
| "never_empty (Opt a) = False"

lemma never_empty_matches: "never_empty r \<Longrightarrow> 0 \<notin> set (matches r s)"
  by (induction r arbitrary: s) auto

lemma pattern_never_empty: "list_all (\<lambda>(t, v, r). never_empty r) pattern"
  by (simp add: pattern_def token_pattern_def tokens_def pattern_of_def)

lemma match_groups_pos:
  "list_all (\<lambda>(t, v, r). never_empty r) p \<Longrightarrow> match_groups p s = Some (t, v, n) \<Longrightarrow> 0 < n"
proof (induction p s rule: match_groups.induct)
  case (1 s)
  then show ?case by simp
next
  case (2 type variant r gs s)
  show ?case
  proof (cases "matches r s")
    case Nil
    with 2 show ?thesis by simp
  next
    case (Cons m ms)
    with "2.prems" have "n = m" "never_empty r" by auto
    moreover from Cons have "m \<in> set (matches r s)" by simp
    ultimately show ?thesis
      using never_empty_matches [of r s] by (cases "n = 0") auto
  qed
qed

lemma pattern_match_pos:
  "pattern_match pattern line i = Some (t, v, e) \<Longrightarrow> i < e"
  using pattern_never_empty
  by (auto simp: pattern_match_def split: option.splits dest: match_groups_pos)

lemma tokenize_line_returns: "\<exists>ts k. tokenize_line pattern lineno line i = Ret (ts, k)"
proof (induction "pattern" lineno line i rule: tokenize_line.induct)
  case (1 lineno line i)
  show ?case
  proof (cases "pattern_match pattern line i")
    case None
    then show ?thesis by (simp add: tokenize_line.simps)
  next
    case (Some m)
    obtain t v e where m: "m = (t, v, e)" by (cases m)
    with Some have ne: "e \<noteq> i"
      using pattern_match_pos [of line i t v e] by simp
    from "1" [OF Some _ _ ne] m obtain ts k where "tokenize_line pattern lineno line e = Ret (ts, k)"
      by blast
    with Some m ne show ?thesis
      by (simp add: tokenize_line.simps)
  qed
qed

lemma tokenize_lines_returns_or_asserts:
  "(\<exists>toks. tokenize_lines pattern lineno ls = Ret toks) \<or>
   tokenize_lines pattern lineno ls = Raise AssertionError"
proof (induction ls arbitrary: lineno)
  case Nil
  then show ?case by simp
next
  case (Cons line ls)
  obtain ts k where l: "tokenize_line pattern lineno line 0 = Ret (ts, k)"
    using tokenize_line_returns by blast
  from Cons [of "lineno + 1"] l show ?case
    by auto
qed

text \<open>
  \<open>scan_reaches p line i k\<close>: the scan of the line, started at position \<open>i\<close>, comes to
  position \<open>k\<close> by matching token after token.
\<close>

inductive scan_reaches :: "pattern \<Rightarrow> string \<Rightarrow> nat \<Rightarrow> nat \<Rightarrow> bool" where
  here: "scan_reaches p line i i"
| step: "pattern_match p line i = Some (t, v, e) \<Longrightarrow> scan_reaches p line e k \<Longrightarrow>
     scan_reaches p line i k"

code_pred scan_reaches .

lemma tokenize_line_stops_at:
  "scan_reaches p line i j \<Longrightarrow> pattern_match p line j = None \<Longrightarrow>
   tokenize_line p lineno line i = Ret (ts, k) \<Longrightarrow> k = j"
proof (induction arbitrary: ts rule: scan_reaches.induct)
  case (here p line i)
  then show ?case by (simp add: tokenize_line.simps)
next
  case (step p line i t v e j)
  from step.prems(2) step.hyps(1) obtain ts' where "tokenize_line p lineno line e = Ret (ts', k)"
    by (auto simp: tokenize_line.simps and_then_Ret split: if_splits)
  with step.IH [OF step.prems(1)] show ?case by blast
qed

lemma tokenize_lines_asserts:
  assumes "line \<in> set ls" and "scan_reaches pattern line 0 i" and "i < length line"
    and "pattern_match pattern line i = None"
  shows "tokenize_lines pattern lineno ls = Raise AssertionError"
  using assms(1)
proof (induction ls arbitrary: lineno)
  case Nil
  then show ?case by simp
next
  case (Cons l ls)
  obtain ts k where l: "tokenize_line pattern lineno l 0 = Ret (ts, k)"
    using tokenize_line_returns by blast
  show ?case
  proof (cases "k = length l")
    case False
    with l show ?thesis by simp
  next
    case True
    have "l \<noteq> line"
    proof
      assume "l = line"
      with l assms(2,4) have "k = i"
        using tokenize_line_stops_at by blast
      with True assms(3) \<open>l = line\<close> show False by simp
    qed
    with Cons.prems have "line \<in> set ls" by simp
    from Cons.IH [OF this] l True show ?thesis by simp
  qed
qed










subsection \<open>Claims about the tokenizer\<close>



text \<open>
  C8. When \<open>tokenize\<close> accepts a text, its tokens are the tokens of the lines in
  order, and the tokens of each line cover that line exactly once, whitespace included:
  the first token starts at offset 0, each next token starts where the one before ended,
  the last one ends at the line's length, and the strings of the tokens put together are
  the line. This holds for every compiled pattern.
\<close>

theorem tokenize_covers_every_line:
  "tokenize text p = Ret toks \<Longrightarrow>
   \<exists>tss. toks = concat tss \<and> line_tokens 1 (splitlines text) tss"
  unfolding tokenize_def by (rule tokenize_lines_cover)

theorem tokenize_covers_every_line_witness:
  "tokenize (''ab'' @ [CHR 0x0A] @ '' c'') pattern = Ret [
     \<lparr>tok_type = ''word'', tok_variant = ''word'', tok_string = ''ab'',
        tok_start = 0, tok_end = 2, tok_line = 1\<rparr>,
     \<lparr>tok_type = ''space'', tok_variant = ''space'', tok_string = '' '',
        tok_start = 0, tok_end = 1, tok_line = 2\<rparr>,
     \<lparr>tok_type = ''word'', tok_variant = ''word'', tok_string = ''c'',
        tok_start = 1, tok_end = 2, tok_line = 2\<rparr>] \<and>
   (\<exists>tss. [
     \<lparr>tok_type = ''word'', tok_variant = ''word'', tok_string = ''ab'',
        tok_start = 0, tok_end = 2, tok_line = 1\<rparr>,
     \<lparr>tok_type = ''space'', tok_variant = ''space'', tok_string = '' '',
        tok_start = 0, tok_end = 1, tok_line = 2\<rparr>,
     \<lparr>tok_type = ''word'', tok_variant = ''word'', tok_string = ''c'',
        tok_start = 1, tok_end = 2, tok_line = 2\<rparr>] = concat tss \<and>
     line_tokens 1 (splitlines (''ab'' @ [CHR 0x0A] @ '' c'')) tss)"
proof -
  have h: "tokenize (''ab'' @ [CHR 0x0A] @ '' c'') pattern = Ret [
     \<lparr>tok_type = ''word'', tok_variant = ''word'', tok_string = ''ab'',
        tok_start = 0, tok_end = 2, tok_line = 1\<rparr>,
     \<lparr>tok_type = ''space'', tok_variant = ''space'', tok_string = '' '',
        tok_start = 0, tok_end = 1, tok_line = 2\<rparr>,
     \<lparr>tok_type = ''word'', tok_variant = ''word'', tok_string = ''c'',
        tok_start = 1, tok_end = 2, tok_line = 2\<rparr>]"
    by code_simp
  show ?thesis
    by (rule conjI [OF h tokenize_covers_every_line [OF h]])
qed

text \<open>
  C2, as the code has it. When the scan of some line of the text comes to a position
  before the line's end at which no rule matches, \<open>tokenize\<close> fails, and it fails with
  the assertion error of \<^verbatim>\<open>assert i == len(line)\<close>: an error of its own kind, different
  from the parser's errors, that carries neither the line number nor the offset.
\<close>

theorem tokenize_unmatched_position_asserts:
  "line \<in> set (splitlines text) \<Longrightarrow> scan_reaches pattern line 0 i \<Longrightarrow> i < length line \<Longrightarrow>
   pattern_match pattern line i = None \<Longrightarrow> tokenize text pattern = Raise AssertionError"
  unfolding tokenize_def by (rule tokenize_lines_asserts)

theorem tokenize_unmatched_position_asserts_witness:
  "''bc@'' \<in> set (splitlines (''a'' @ [CHR 0x0A] @ ''bc@'')) \<and> scan_reaches pattern ''bc@'' 0 2 \<and>
   (2::nat) < length ''bc@'' \<and> pattern_match pattern ''bc@'' 2 = None \<and>
   tokenize (''a'' @ [CHR 0x0A] @ ''bc@'') pattern = Raise AssertionError"
proof -
  have a: "''bc@'' \<in> set (splitlines (''a'' @ [CHR 0x0A] @ ''bc@''))"
    by code_simp
  have m: "pattern_match pattern ''bc@'' 0 = Some (''word'', ''word'', 2)"
    by code_simp
  have b: "scan_reaches pattern ''bc@'' 0 2"
    by (rule scan_reaches.step [OF m scan_reaches.here])
  have c: "(2::nat) < length ''bc@''"
    by simp
  have d: "pattern_match pattern ''bc@'' 2 = None"
    by code_simp
  show ?thesis
    by (rule conjI [OF a conjI [OF b conjI [OF c conjI [OF d
      tokenize_unmatched_position_asserts [OF a b c d]]]]])
qed

text \<open>
  C2 as stated fails: a bare \<^verbatim>\<open>@\<close> at line 1, offset 0, and one at line 2, offset 2,
  raise the same error value, an assertion error and no lexical error with a position.
\<close>

theorem tokenize_error_has_no_position:
  "tokenize ''@'' pattern = Raise AssertionError \<and>
   tokenize (''a'' @ [CHR 0x0A] @ ''bc@'') pattern = Raise AssertionError"
proof -
  have a: "tokenize ''@'' pattern = Raise AssertionError"
    by code_simp
  have b: "tokenize (''a'' @ [CHR 0x0A] @ ''bc@'') pattern = Raise AssertionError"
    by code_simp
  show ?thesis
    by (rule conjI [OF a b])
qed

section \<open>Nodes and values\<close>

text \<open>
  A node's value is what \<^verbatim>\<open>el.get("value")\<close> gives: a string, the number that
  \<^verbatim>\<open>number\<close> built, or \<^verbatim>\<open>None\<close>. A Python float is kept opaque: nothing is assumed of
  \<^verbatim>\<open>float(s)\<close> and \<^verbatim>\<open>str(x)\<close> on floats, so whatever is proved holds for every rounding.
\<close>

typedecl pyfloat

instantiation pyfloat :: equal
begin

definition equal_pyfloat :: "pyfloat \<Rightarrow> pyfloat \<Rightarrow> bool" where
  "equal_pyfloat x y = (x = y)"

instance
  by standard (simp add: equal_pyfloat_def)

end

definition float_of_string :: "string \<Rightarrow> pyfloat" where
  "float_of_string = (SOME f. True)"

definition str_of_float :: "pyfloat \<Rightarrow> string" where
  "str_of_float = (SOME f. True)"

datatype pyval = PyNone | PyStr string | PyInt int | PyFloat pyfloat

text \<open>
  \<^verbatim>\<open>Node(tag, text)\<close> is an element with the attribute \<^verbatim>\<open>value\<close> and no children,
  \<^verbatim>\<open>Collection(tag, children)\<close> an element with children and no attribute.
\<close>

datatype ast = Node string pyval | Collection string "ast list"

definition digit_value :: "char \<Rightarrow> int" where
  "digit_value c = int (of_char c) - 48"

definition int_of_string :: "string \<Rightarrow> int" where
  "int_of_string s = foldl (\<lambda>a c. 10 * a + digit_value c) 0 s"

text \<open>
  \<^verbatim>\<open>number\<close> on the strings of the number rule: \<^verbatim>\<open>int\<close> takes a string of digits,
  up to the 4300 digits that Python allows in a conversion. On a longer one, and on one
  with a point, \<^verbatim>\<open>int\<close> raises \<^verbatim>\<open>ValueError\<close> and \<^verbatim>\<open>float\<close> takes the string.
\<close>

definition number :: "string \<Rightarrow> pyval" where
  "number s = (if s \<noteq> [] \<and> list_all is_digit s \<and> length s \<le> 4300 then PyInt (int_of_string s)
     else PyFloat (float_of_string s))"

section \<open>Parser\<close>

text \<open>
  Python's list access with an integer that may be negative: \<open>slice_from xs i\<close> is
  \<^verbatim>\<open>xs[i:]\<close>, \<open>slice xs i j\<close> is \<^verbatim>\<open>xs[i:j]\<close>, \<open>at_index xs i\<close> is \<^verbatim>\<open>xs[i]\<close>, which
  raises \<^verbatim>\<open>IndexError\<close> out of range.
\<close>

definition clamp_index :: "'a list \<Rightarrow> int \<Rightarrow> nat" where
  "clamp_index xs i =
     (if i < 0 then nat (max 0 (int (length xs) + i)) else min (length xs) (nat i))"

definition slice_from :: "'a list \<Rightarrow> int \<Rightarrow> 'a list" where
  "slice_from xs i = drop (clamp_index xs i) xs"

definition slice :: "'a list \<Rightarrow> int \<Rightarrow> int \<Rightarrow> 'a list" where
  "slice xs i j = take (clamp_index xs j - clamp_index xs i) (drop (clamp_index xs i) xs)"

definition at_index :: "'a list \<Rightarrow> int \<Rightarrow> 'a option" where
  "at_index xs i =
     (let j = (if i < 0 then int (length xs) + i else i)
      in if 0 \<le> j \<and> j < int (length xs) then Some (xs ! nat j) else None)"

text \<open>
  \<^verbatim>\<open>get(tokens, i)\<close>: the first token from index \<open>i\<close> that is not whitespace, with the
  index after it; at the end of the tokens the index \<open>-1\<close> and a made-up token of type
  \<^verbatim>\<open>end\<close>.
\<close>

fun get_loop :: "token list \<Rightarrow> int \<Rightarrow> int \<Rightarrow> int \<times> token" where
  "get_loop [] j i = (- 1, \<lparr>tok_type = ''end'', tok_variant = ''end'', tok_string = [],
     tok_start = i, tok_end = i, tok_line = 1\<rparr>)"
| "get_loop (token # rest) j i =
     (if tok_type token = ''space'' then get_loop rest (j + 1) i else (j + 1, token))"

definition get :: "token list \<Rightarrow> int \<Rightarrow> int \<times> token" where
  "get tks i = get_loop (slice_from tks i) i i"

text \<open>
  \<^verbatim>\<open>_i(tokens, i)\<close>: the index after the first token that is not whitespace. When only
  whitespace is left it returns the last index it saw, and on an empty rest its
  \<^verbatim>\<open>return j\<close> reads a variable that was never bound.
\<close>

fun i_loop :: "token list \<Rightarrow> int \<Rightarrow> int option \<Rightarrow> error + int" where
  "i_loop [] j seen = (case seen of None \<Rightarrow> Inl UnboundLocalError | Some k \<Rightarrow> Inr k)"
| "i_loop (token # rest) j seen =
     (if tok_type token = ''space'' then i_loop rest (j + 1) (Some j) else Inr (j + 1))"

definition py_i :: "token list \<Rightarrow> int \<Rightarrow> error + int" where
  "py_i tks i = i_loop (slice_from tks i) i None"

text \<open>
  \<^verbatim>\<open>get_token(tokens, i)\<close>: the first token from index \<open>i\<close> that is not whitespace. When
  there is none the function falls off its loop and returns \<^verbatim>\<open>None\<close>.
\<close>

definition get_token :: "token list \<Rightarrow> int \<Rightarrow> token option" where
  "get_token tks i = find (\<lambda>token. tok_type token \<noteq> ''space'') (slice_from tks i)"

text \<open>
  \<^verbatim>\<open>parse_string(tokens, i)\<close>: the tokens from \<open>i\<close> up to the first token of the opening
  quote's variant that does not follow an escape token; the value is the text of all
  tokens in between. Without such a token the function returns \<^verbatim>\<open>None\<close>.
\<close>

fun parse_string_loop :: "token list \<Rightarrow> int \<Rightarrow> string \<Rightarrow> token list \<Rightarrow> int \<Rightarrow> bool \<Rightarrow> (int \<times> ast) option" where
  "parse_string_loop tks i start [] j escape = None"
| "parse_string_loop tks i start (token # rest) j escape =
     (if escape then parse_string_loop tks i start rest (j + 1) False
      else if tok_variant token = start then
        Some (j + 1, Node ''STR'' (PyStr (concat (map tok_string (slice tks i j)))))
      else if tok_variant token = ''escape'' then parse_string_loop tks i start rest (j + 1) True
      else parse_string_loop tks i start rest (j + 1) escape)"

definition parse_string :: "token list \<Rightarrow> int \<Rightarrow> error + (int \<times> ast) option" where
  "parse_string tks i =
     (case at_index tks (i - 1) of
        None \<Rightarrow> Inl IndexError
      | Some opening \<Rightarrow> Inr (parse_string_loop tks i (tok_variant opening) (slice_from tks i) i False))"

text \<open>
  The recursive descent. The functions of the parser call each other in a cycle, so each
  is first written with the functions it calls as parameters, under the names they
  have in the source; a \<^verbatim>\<open>while True\<close> loop is the function named \<open>_while\<close>, which
  calls itself for the next round.
\<close>

type_synonym expr_parser = "token list \<Rightarrow> int \<Rightarrow> (int \<times> ast) res"
type_synonym expr_loop = "token list \<Rightarrow> int \<Rightarrow> ast \<Rightarrow> (int \<times> ast) res"
type_synonym coll_parser = "token list \<Rightarrow> int \<Rightarrow> (int \<times> ast list) res"
type_synonym coll_loop = "token list \<Rightarrow> int \<Rightarrow> ast list \<Rightarrow> (int \<times> ast list) res"

definition parse_collection_body :: "coll_loop \<Rightarrow> coll_parser" where
  "parse_collection_body parse_collection_while tks i = parse_collection_while tks i []"

definition parse_collection_while_body :: "expr_parser \<Rightarrow> coll_loop \<Rightarrow> coll_loop" where
  "parse_collection_while_body parse_function_expression parse_collection_while tks i arguments =
     (case get_token tks i of
        None \<Rightarrow> Raise AttributeError
      | Some next_token \<Rightarrow>
          if tok_type next_token \<noteq> ''close'' then
            and_then (parse_function_expression tks i) (\<lambda>(i, expr).
              let (j, token) = get tks i
              in parse_collection_while tks (if tok_variant token = ''comma'' then j else i)
                   (arguments @ [expr]))
          else and_then (lift (py_i tks i)) (\<lambda>k. Ret (k, arguments)))"

definition parse_term_body :: "coll_parser \<Rightarrow> expr_parser \<Rightarrow> expr_parser" where
  "parse_term_body parse_collection parse_term tks i0 =
     (let (i, token) = get tks i0
      in if tok_type token = ''word'' then Ret (i, Node ''VAR'' (PyStr (tok_string token)))
      else if tok_type token = ''open'' then
        and_then (parse_collection tks i) (\<lambda>(i, coll).
          if tok_variant token = ''lsquare'' then Ret (i, Collection ''LIST'' coll)
          else if tok_variant token = ''lparen'' then Ret (i, Collection ''PAREN'' coll)
          else Raise (NotImplementedError (tok_variant token)))
      else if tok_type token = ''number'' then Ret (i, Node ''NUM'' (number (tok_string token)))
      else if tok_type token = ''string'' then
        (case parse_string tks i of
           Inl e \<Rightarrow> Raise e
         | Inr None \<Rightarrow> Raise (TypeError ''cannot unpack non-iterable NoneType object'')
         | Inr (Some (i, string)) \<Rightarrow> Ret (i, string))
      else if tok_type token = ''operator'' then
        (if tok_variant token \<in> {''add'', ''minus''} then
           and_then (parse_term tks i) (\<lambda>(i, arg).
             Ret (i, Collection ''UNOP'' [Node ''OP'' (PyStr (tok_string token)), arg]))
         else Raise (NotImplementedError (tok_variant token)))
      else Raise (TokenError token))"

definition parse_post_expression_body :: "expr_parser \<Rightarrow> expr_loop \<Rightarrow> expr_parser" where
  "parse_post_expression_body parse_term parse_post_expression_while tks i =
     and_then (parse_term tks i) (\<lambda>(i, left). parse_post_expression_while tks i left)"

definition parse_post_expression_while_body :: "coll_parser \<Rightarrow> expr_loop \<Rightarrow> expr_loop" where
  "parse_post_expression_while_body parse_collection parse_post_expression_while tks i left =
     (let (j, right) = get tks i
      in if tok_type right = ''open'' then
        and_then (parse_collection tks j) (\<lambda>(i, coll).
          if tok_variant right = ''lparen'' then
            parse_post_expression_while tks i (Collection ''CALL'' [left, Collection ''ARGS'' coll])
          else if tok_variant right = ''lsquare'' then
            parse_post_expression_while tks i (Collection ''GET'' [left, Collection ''KEY'' coll])
          else Raise (NotImplementedError (tok_variant right)))
      else Ret (i, left))"

definition parse_prod_expression_body :: "expr_parser \<Rightarrow> expr_loop \<Rightarrow> expr_parser" where
  "parse_prod_expression_body parse_post_expression parse_prod_expression_while tks i =
     and_then (parse_post_expression tks i) (\<lambda>(i, left). parse_prod_expression_while tks i left)"

definition parse_prod_expression_while_body :: "expr_parser \<Rightarrow> expr_loop \<Rightarrow> expr_loop" where
  "parse_prod_expression_while_body parse_post_expression parse_prod_expression_while tks i left =
     (let (j, mid) = get tks i
      in if tok_variant mid \<in> {''multiply'', ''divide''} then
        and_then (parse_post_expression tks j) (\<lambda>(i, right).
          parse_prod_expression_while tks i
            (Collection ''PRODOP'' [left, Node ''OP'' (PyStr (tok_string mid)), right]))
      else Ret (i, left))"

definition parse_sum_expression_body :: "expr_parser \<Rightarrow> expr_loop \<Rightarrow> expr_parser" where
  "parse_sum_expression_body parse_prod_expression parse_sum_expression_while tks i =
     and_then (parse_prod_expression tks i) (\<lambda>(i, left). parse_sum_expression_while tks i left)"

definition parse_sum_expression_while_body :: "expr_parser \<Rightarrow> expr_loop \<Rightarrow> expr_loop" where
  "parse_sum_expression_while_body parse_prod_expression parse_sum_expression_while tks i left =
     (let (j, mid) = get tks i
      in if tok_variant mid \<in> {''add'', ''minus''} then
        and_then (parse_prod_expression tks j) (\<lambda>(i, right).
          parse_sum_expression_while tks i
            (Collection ''SUMOP'' [left, Node ''OP'' (PyStr (tok_string mid)), right]))
      else Ret (i, left))"

definition parse_comp_expression_body :: "expr_parser \<Rightarrow> expr_loop \<Rightarrow> expr_parser" where
  "parse_comp_expression_body parse_sum_expression parse_comp_expression_while tks i =
     and_then (parse_sum_expression tks i) (\<lambda>(i, left). parse_comp_expression_while tks i left)"

definition parse_comp_expression_while_body :: "expr_parser \<Rightarrow> expr_loop \<Rightarrow> expr_loop" where
  "parse_comp_expression_while_body parse_prod_expression parse_comp_expression_while tks i left =
     (let (j, mid) = get tks i
      in if tok_variant mid \<in> {''equals'', ''notEquals'', ''greater'', ''lesser''} then
        and_then (parse_prod_expression tks j) (\<lambda>(i, right).
          parse_comp_expression_while tks i
            (Collection ''COMPARE'' [left, Node ''OP'' (PyStr (tok_string mid)), right]))
      else Ret (i, left))"

definition parse_logical_expression_body :: "expr_parser \<Rightarrow> expr_loop \<Rightarrow> expr_parser" where
  "parse_logical_expression_body parse_comp_expression parse_logical_expression_while tks i =
     and_then (parse_comp_expression tks i) (\<lambda>(i, left). parse_logical_expression_while tks i left)"

definition parse_logical_expression_while_body :: "expr_parser \<Rightarrow> expr_loop \<Rightarrow> expr_loop" where
  "parse_logical_expression_while_body parse_comp_expression parse_logical_expression_while tks i left =
     (let (j, mid) = get tks i
      in if tok_variant mid \<in> {''and'', ''or''} then
        and_then (parse_comp_expression tks j) (\<lambda>(i, right).
          parse_logical_expression_while tks i
            (Collection ''LOGICAL'' [left, Node ''OP'' (PyStr (tok_string mid)), right]))
      else Ret (i, left))"

definition parse_function_expression_body :: "expr_parser \<Rightarrow> expr_parser" where
  "parse_function_expression_body parse_logical_expression tks i =
     and_then (parse_logical_expression tks i) (\<lambda>(i, left).
       let (j, mid) = get tks i
       in if tok_variant mid = ''arrow'' then
         and_then (parse_logical_expression tks j) (\<lambda>(i, right).
           Ret (i, Collection ''FUNC'' [left, right]))
       else Ret (i, left))"

definition parse_expression_body :: "expr_parser \<Rightarrow> expr_parser" where
  "parse_expression_body parse_logical_expression tks i =
     and_then (parse_logical_expression tks i) (\<lambda>(i, left).
       let (j, mid) = get tks i
       in if tok_variant mid = ''assign'' then
         and_then (parse_logical_expression tks j) (\<lambda>(i, right).
           Ret (i, Collection ''ASSIGN'' [left, right]))
       else Ret (i, left))"

text \<open>
  The cycle is closed with fuel: a function with fuel \<open>Suc n\<close> calls the others, and
  itself, with fuel \<open>n\<close>, and without fuel a call is \<open>Unfinished\<close>. \<open>parsers_with n\<close> is
  the family of all functions at fuel \<open>n\<close>.
\<close>

record parsers =
  p_collection :: coll_parser
  p_collection_while :: coll_loop
  p_term :: expr_parser
  p_post :: expr_parser
  p_post_while :: expr_loop
  p_prod :: expr_parser
  p_prod_while :: expr_loop
  p_sum :: expr_parser
  p_sum_while :: expr_loop
  p_comp :: expr_parser
  p_comp_while :: expr_loop
  p_logical :: expr_parser
  p_logical_while :: expr_loop
  p_function :: expr_parser

primrec parsers_with :: "nat \<Rightarrow> parsers" where
  "parsers_with 0 = \<lparr>
     p_collection = (\<lambda>tks i. Unfinished),
     p_collection_while = (\<lambda>tks i arguments. Unfinished),
     p_term = (\<lambda>tks i. Unfinished),
     p_post = (\<lambda>tks i. Unfinished),
     p_post_while = (\<lambda>tks i left. Unfinished),
     p_prod = (\<lambda>tks i. Unfinished),
     p_prod_while = (\<lambda>tks i left. Unfinished),
     p_sum = (\<lambda>tks i. Unfinished),
     p_sum_while = (\<lambda>tks i left. Unfinished),
     p_comp = (\<lambda>tks i. Unfinished),
     p_comp_while = (\<lambda>tks i left. Unfinished),
     p_logical = (\<lambda>tks i. Unfinished),
     p_logical_while = (\<lambda>tks i left. Unfinished),
     p_function = (\<lambda>tks i. Unfinished)\<rparr>"
| "parsers_with (Suc n) = \<lparr>
     p_collection = parse_collection_body (p_collection_while (parsers_with n)),
     p_collection_while =
       parse_collection_while_body (p_function (parsers_with n)) (p_collection_while (parsers_with n)),
     p_term = parse_term_body (p_collection (parsers_with n)) (p_term (parsers_with n)),
     p_post = parse_post_expression_body (p_term (parsers_with n)) (p_post_while (parsers_with n)),
     p_post_while =
       parse_post_expression_while_body (p_collection (parsers_with n)) (p_post_while (parsers_with n)),
     p_prod = parse_prod_expression_body (p_post (parsers_with n)) (p_prod_while (parsers_with n)),
     p_prod_while =
       parse_prod_expression_while_body (p_post (parsers_with n)) (p_prod_while (parsers_with n)),
     p_sum = parse_sum_expression_body (p_prod (parsers_with n)) (p_sum_while (parsers_with n)),
     p_sum_while =
       parse_sum_expression_while_body (p_prod (parsers_with n)) (p_sum_while (parsers_with n)),
     p_comp = parse_comp_expression_body (p_sum (parsers_with n)) (p_comp_while (parsers_with n)),
     p_comp_while =
       parse_comp_expression_while_body (p_prod (parsers_with n)) (p_comp_while (parsers_with n)),
     p_logical =
       parse_logical_expression_body (p_comp (parsers_with n)) (p_logical_while (parsers_with n)),
     p_logical_while =
       parse_logical_expression_while_body (p_comp (parsers_with n)) (p_logical_while (parsers_with n)),
     p_function = parse_function_expression_body (p_logical (parsers_with n))\<rparr>"

definition parse_collection :: "nat \<Rightarrow> coll_parser" where
  "parse_collection n = p_collection (parsers_with n)"

definition parse_collection_while :: "nat \<Rightarrow> coll_loop" where
  "parse_collection_while n = p_collection_while (parsers_with n)"

definition parse_term :: "nat \<Rightarrow> expr_parser" where
  "parse_term n = p_term (parsers_with n)"

definition parse_post_expression :: "nat \<Rightarrow> expr_parser" where
  "parse_post_expression n = p_post (parsers_with n)"

definition parse_post_expression_while :: "nat \<Rightarrow> expr_loop" where
  "parse_post_expression_while n = p_post_while (parsers_with n)"

definition parse_prod_expression :: "nat \<Rightarrow> expr_parser" where
  "parse_prod_expression n = p_prod (parsers_with n)"

definition parse_prod_expression_while :: "nat \<Rightarrow> expr_loop" where
  "parse_prod_expression_while n = p_prod_while (parsers_with n)"

definition parse_sum_expression :: "nat \<Rightarrow> expr_parser" where
  "parse_sum_expression n = p_sum (parsers_with n)"

definition parse_sum_expression_while :: "nat \<Rightarrow> expr_loop" where
  "parse_sum_expression_while n = p_sum_while (parsers_with n)"

definition parse_comp_expression :: "nat \<Rightarrow> expr_parser" where
  "parse_comp_expression n = p_comp (parsers_with n)"

definition parse_comp_expression_while :: "nat \<Rightarrow> expr_loop" where
  "parse_comp_expression_while n = p_comp_while (parsers_with n)"

definition parse_logical_expression :: "nat \<Rightarrow> expr_parser" where
  "parse_logical_expression n = p_logical (parsers_with n)"

definition parse_logical_expression_while :: "nat \<Rightarrow> expr_loop" where
  "parse_logical_expression_while n = p_logical_while (parsers_with n)"

definition parse_function_expression :: "nat \<Rightarrow> expr_parser" where
  "parse_function_expression n = p_function (parsers_with n)"

definition parse_expression :: "nat \<Rightarrow> expr_parser" where
  "parse_expression n = parse_expression_body (parse_logical_expression n)"

text \<open>
  \<^verbatim>\<open>parse(text, pattern)\<close>: the root of the expression at the start of the tokens. The
  index that \<^verbatim>\<open>parse_expression\<close> returns is dropped.
\<close>

definition parse :: "nat \<Rightarrow> string \<Rightarrow> pattern \<Rightarrow> ast res" where
  "parse n text p =
     and_then (tokenize text p) (\<lambda>tks.
       and_then (parse_expression n tks 0) (\<lambda>(i, root). Ret root))"

text \<open>The equations of the functions: what each is without fuel and with fuel.\<close>

lemma parse_without_fuel:
  "parse_collection 0 tks i = Unfinished"
  "parse_collection_while 0 tks i arguments = Unfinished"
  "parse_term 0 tks i = Unfinished"
  "parse_post_expression 0 tks i = Unfinished"
  "parse_post_expression_while 0 tks i left = Unfinished"
  "parse_prod_expression 0 tks i = Unfinished"
  "parse_prod_expression_while 0 tks i left = Unfinished"
  "parse_sum_expression 0 tks i = Unfinished"
  "parse_sum_expression_while 0 tks i left = Unfinished"
  "parse_comp_expression 0 tks i = Unfinished"
  "parse_comp_expression_while 0 tks i left = Unfinished"
  "parse_logical_expression 0 tks i = Unfinished"
  "parse_logical_expression_while 0 tks i left = Unfinished"
  "parse_function_expression 0 tks i = Unfinished"
  by (simp_all add: parse_collection_def parse_collection_while_def parse_term_def
      parse_post_expression_def parse_post_expression_while_def parse_prod_expression_def
      parse_prod_expression_while_def parse_sum_expression_def parse_sum_expression_while_def
      parse_comp_expression_def parse_comp_expression_while_def parse_logical_expression_def
      parse_logical_expression_while_def parse_function_expression_def)

lemma parse_with_fuel:
  "parse_collection (Suc n) = parse_collection_body (parse_collection_while n)"
  "parse_collection_while (Suc n) =
     parse_collection_while_body (parse_function_expression n) (parse_collection_while n)"
  "parse_term (Suc n) = parse_term_body (parse_collection n) (parse_term n)"
  "parse_post_expression (Suc n) =
     parse_post_expression_body (parse_term n) (parse_post_expression_while n)"
  "parse_post_expression_while (Suc n) =
     parse_post_expression_while_body (parse_collection n) (parse_post_expression_while n)"
  "parse_prod_expression (Suc n) =
     parse_prod_expression_body (parse_post_expression n) (parse_prod_expression_while n)"
  "parse_prod_expression_while (Suc n) =
     parse_prod_expression_while_body (parse_post_expression n) (parse_prod_expression_while n)"
  "parse_sum_expression (Suc n) =
     parse_sum_expression_body (parse_prod_expression n) (parse_sum_expression_while n)"
  "parse_sum_expression_while (Suc n) =
     parse_sum_expression_while_body (parse_prod_expression n) (parse_sum_expression_while n)"
  "parse_comp_expression (Suc n) =
     parse_comp_expression_body (parse_sum_expression n) (parse_comp_expression_while n)"
  "parse_comp_expression_while (Suc n) =
     parse_comp_expression_while_body (parse_prod_expression n) (parse_comp_expression_while n)"
  "parse_logical_expression (Suc n) =
     parse_logical_expression_body (parse_comp_expression n) (parse_logical_expression_while n)"
  "parse_logical_expression_while (Suc n) =
     parse_logical_expression_while_body (parse_comp_expression n) (parse_logical_expression_while n)"
  "parse_function_expression (Suc n) = parse_function_expression_body (parse_logical_expression n)"
  by (simp_all add: parse_collection_def parse_collection_while_def parse_term_def
      parse_post_expression_def parse_post_expression_while_def parse_prod_expression_def
      parse_prod_expression_while_def parse_sum_expression_def parse_sum_expression_while_def
      parse_comp_expression_def parse_comp_expression_while_def parse_logical_expression_def
      parse_logical_expression_while_def parse_function_expression_def)

section \<open>Running the parser on concrete texts\<close>

text \<open>
  The simplifier runs the parser when it is kept from looking into a continuation before
  the result it waits for is there; a numeral of fuel is counted down with
  \<open>eval_nat_numeral\<close>.
\<close>

lemma and_then_weak_cong: "r = r' \<Longrightarrow> and_then r f = and_then r' f"
  by simp

lemmas parse_loops_applied =
  parse_with_fuel(2,5,7,9,11,13) [THEN fun_cong, THEN fun_cong, THEN fun_cong]

lemmas parse_calls_applied =
  parse_with_fuel(1,3,4,6,8,10,12,14) [THEN fun_cong, THEN fun_cong]

lemmas parse_bodies =
  parse_collection_body_def parse_collection_while_body_def parse_term_body_def
  parse_post_expression_body_def parse_post_expression_while_body_def
  parse_prod_expression_body_def parse_prod_expression_while_body_def
  parse_sum_expression_body_def parse_sum_expression_while_body_def
  parse_comp_expression_body_def parse_comp_expression_while_body_def
  parse_logical_expression_body_def parse_logical_expression_while_body_def
  parse_function_expression_body_def parse_expression_body_def

lemmas parse_helpers =
  get_def get_token_def py_i_def slice_from_def slice_def clamp_index_def at_index_def
  parse_string_def lift_def number_def int_of_string_def digit_value_def is_digit_def
  less_eq_char_def

lemmas run_parser =
  parse_expression_def parse_calls_applied parse_loops_applied parse_bodies parse_helpers
  eval_nat_numeral

text \<open>A token of line 1, as the tokenizer builds it.\<close>

abbreviation token1 :: "string \<Rightarrow> string \<Rightarrow> string \<Rightarrow> int \<Rightarrow> int \<Rightarrow> token" where
  "token1 type variant string start ending \<equiv>
     \<lparr>tok_type = type, tok_variant = variant, tok_string = string, tok_start = start,
      tok_end = ending, tok_line = 1\<rparr>"

lemma tokens_a_eq_b_plus_c:
  "tokenize ''a = b + c'' pattern = Ret [
     token1 ''word'' ''word'' ''a'' 0 1, token1 ''space'' ''space'' '' '' 1 2,
     token1 ''operator'' ''equals'' ''='' 2 3, token1 ''space'' ''space'' '' '' 3 4,
     token1 ''word'' ''word'' ''b'' 4 5, token1 ''space'' ''space'' '' '' 5 6,
     token1 ''operator'' ''add'' ''+'' 6 7, token1 ''space'' ''space'' '' '' 7 8,
     token1 ''word'' ''word'' ''c'' 8 9]"
  by code_simp

lemma tokens_a_eq_b:
  "tokenize ''a = b'' pattern = Ret [
     token1 ''word'' ''word'' ''a'' 0 1, token1 ''space'' ''space'' '' '' 1 2,
     token1 ''operator'' ''equals'' ''='' 2 3, token1 ''space'' ''space'' '' '' 3 4,
     token1 ''word'' ''word'' ''b'' 4 5]"
  by code_simp

lemma tokens_a_eq_paren:
  "tokenize ''a = (b + c)'' pattern = Ret [
     token1 ''word'' ''word'' ''a'' 0 1, token1 ''space'' ''space'' '' '' 1 2,
     token1 ''operator'' ''equals'' ''='' 2 3, token1 ''space'' ''space'' '' '' 3 4,
     token1 ''open'' ''lparen'' ''('' 4 5, token1 ''word'' ''word'' ''b'' 5 6,
     token1 ''space'' ''space'' '' '' 6 7, token1 ''operator'' ''add'' ''+'' 7 8,
     token1 ''space'' ''space'' '' '' 8 9, token1 ''word'' ''word'' ''c'' 9 10,
     token1 ''close'' ''rparen'' '')'' 10 11]"
  by code_simp

lemma tokens_a_mod_b:
  "tokenize ''a % b'' pattern = Ret [
     token1 ''word'' ''word'' ''a'' 0 1, token1 ''space'' ''space'' '' '' 1 2,
     token1 ''operator'' ''mod'' ''%'' 2 3, token1 ''space'' ''space'' '' '' 3 4,
     token1 ''word'' ''word'' ''b'' 4 5]"
  by code_simp

lemma tokens_a:
  "tokenize ''a'' pattern = Ret [token1 ''word'' ''word'' ''a'' 0 1]"
  by code_simp

lemma tokens_unclosed_list:
  "tokenize ''[1, 2'' pattern = Ret [
     token1 ''open'' ''lsquare'' ''['' 0 1, token1 ''number'' ''number'' ''1'' 1 2,
     token1 ''sep'' ''comma'' '','' 2 3, token1 ''space'' ''space'' '' '' 3 4,
     token1 ''number'' ''number'' ''2'' 4 5]"
  by code_simp

lemma tokens_list_no_comma:
  "tokenize ''[1 2]'' pattern = Ret [
     token1 ''open'' ''lsquare'' ''['' 0 1, token1 ''number'' ''number'' ''1'' 1 2,
     token1 ''space'' ''space'' '' '' 2 3, token1 ''number'' ''number'' ''2'' 3 4,
     token1 ''close'' ''rsquare'' '']'' 4 5]"
  by code_simp

lemma tokens_list_comma:
  "tokenize ''[1, 2]'' pattern = Ret [
     token1 ''open'' ''lsquare'' ''['' 0 1, token1 ''number'' ''number'' ''1'' 1 2,
     token1 ''sep'' ''comma'' '','' 2 3, token1 ''space'' ''space'' '' '' 3 4,
     token1 ''number'' ''number'' ''2'' 4 5, token1 ''close'' ''rsquare'' '']'' 5 6]"
  by code_simp

lemma tokens_call_no_comma:
  "tokenize ''f(1 2)'' pattern = Ret [
     token1 ''word'' ''word'' ''f'' 0 1, token1 ''open'' ''lparen'' ''('' 1 2,
     token1 ''number'' ''number'' ''1'' 2 3, token1 ''space'' ''space'' '' '' 3 4,
     token1 ''number'' ''number'' ''2'' 4 5, token1 ''close'' ''rparen'' '')'' 5 6]"
  by code_simp

lemma tokens_call_comma:
  "tokenize ''f(1, 2)'' pattern = Ret [
     token1 ''word'' ''word'' ''f'' 0 1, token1 ''open'' ''lparen'' ''('' 1 2,
     token1 ''number'' ''number'' ''1'' 2 3, token1 ''sep'' ''comma'' '','' 3 4,
     token1 ''space'' ''space'' '' '' 4 5, token1 ''number'' ''number'' ''2'' 5 6,
     token1 ''close'' ''rparen'' '')'' 6 7]"
  by code_simp

lemma tokens_a_and_b:
  "tokenize ''a && b'' pattern = Ret [
     token1 ''word'' ''word'' ''a'' 0 1, token1 ''space'' ''space'' '' '' 1 2,
     token1 ''operator'' ''and'' ''&&'' 2 4, token1 ''space'' ''space'' '' '' 4 5,
     token1 ''word'' ''word'' ''b'' 5 6]"
  by code_simp

lemma tokens_empty_list:
  "tokenize ''[]'' pattern = Ret [
     token1 ''open'' ''lsquare'' ''['' 0 1, token1 ''close'' ''rsquare'' '']'' 1 2]"
  by code_simp

lemma tokens_world:
  "tokenize ([CHR 0x27] @ ''w'' @ [CHR 0x5C, CHR 0x22] @ ''orld'' @ [CHR 0x27]) pattern = Ret [
     token1 ''string'' ''apostrophe'' [CHR 0x27] 0 1,
     token1 ''word'' ''word'' [CHR ''w'', CHR 0x5C] 1 3,
     token1 ''string'' ''quotes'' [CHR 0x22] 3 4,
     token1 ''word'' ''word'' ''orld'' 4 8,
     token1 ''string'' ''apostrophe'' [CHR 0x27] 8 9]"
  by code_simp

lemma tokens_escaped_apostrophe:
  "tokenize ([CHR 0x27, CHR 0x5C, CHR 0x27] @ ''a'' @ [CHR 0x27]) pattern = Ret [
     token1 ''string'' ''apostrophe'' [CHR 0x27] 0 1,
     token1 ''string'' ''escape'' [CHR 0x5C] 1 2,
     token1 ''string'' ''apostrophe'' [CHR 0x27] 2 3,
     token1 ''word'' ''word'' ''a'' 3 4,
     token1 ''string'' ''apostrophe'' [CHR 0x27] 4 5]"
  by code_simp

lemma parse_a_eq_b_plus_c:
  "parse_expression 30 [
     token1 ''word'' ''word'' ''a'' 0 1, token1 ''space'' ''space'' '' '' 1 2,
     token1 ''operator'' ''equals'' ''='' 2 3, token1 ''space'' ''space'' '' '' 3 4,
     token1 ''word'' ''word'' ''b'' 4 5, token1 ''space'' ''space'' '' '' 5 6,
     token1 ''operator'' ''add'' ''+'' 6 7, token1 ''space'' ''space'' '' '' 7 8,
     token1 ''word'' ''word'' ''c'' 8 9] 0 =
   Ret (5, Collection ''COMPARE''
     [Node ''VAR'' (PyStr ''a''), Node ''OP'' (PyStr ''=''), Node ''VAR'' (PyStr ''b'')])"
  by (simp add: run_parser cong: and_then_weak_cong)

lemma parse_a_eq_b:
  "parse_expression 30 [
     token1 ''word'' ''word'' ''a'' 0 1, token1 ''space'' ''space'' '' '' 1 2,
     token1 ''operator'' ''equals'' ''='' 2 3, token1 ''space'' ''space'' '' '' 3 4,
     token1 ''word'' ''word'' ''b'' 4 5] 0 =
   Ret (5, Collection ''COMPARE''
     [Node ''VAR'' (PyStr ''a''), Node ''OP'' (PyStr ''=''), Node ''VAR'' (PyStr ''b'')])"
  by (simp add: run_parser cong: and_then_weak_cong)

lemma parse_a_eq_paren:
  "parse_expression 30 [
     token1 ''word'' ''word'' ''a'' 0 1, token1 ''space'' ''space'' '' '' 1 2,
     token1 ''operator'' ''equals'' ''='' 2 3, token1 ''space'' ''space'' '' '' 3 4,
     token1 ''open'' ''lparen'' ''('' 4 5, token1 ''word'' ''word'' ''b'' 5 6,
     token1 ''space'' ''space'' '' '' 6 7, token1 ''operator'' ''add'' ''+'' 7 8,
     token1 ''space'' ''space'' '' '' 8 9, token1 ''word'' ''word'' ''c'' 9 10,
     token1 ''close'' ''rparen'' '')'' 10 11] 0 =
   Ret (11, Collection ''COMPARE''
     [Node ''VAR'' (PyStr ''a''), Node ''OP'' (PyStr ''=''),
      Collection ''PAREN'' [Collection ''SUMOP''
        [Node ''VAR'' (PyStr ''b''), Node ''OP'' (PyStr ''+''), Node ''VAR'' (PyStr ''c'')]]])"
  by (simp add: run_parser cong: and_then_weak_cong)

lemma parse_a_mod_b:
  "parse_expression 30 [
     token1 ''word'' ''word'' ''a'' 0 1, token1 ''space'' ''space'' '' '' 1 2,
     token1 ''operator'' ''mod'' ''%'' 2 3, token1 ''space'' ''space'' '' '' 3 4,
     token1 ''word'' ''word'' ''b'' 4 5] 0 =
   Ret (1, Node ''VAR'' (PyStr ''a''))"
  by (simp add: run_parser cong: and_then_weak_cong)

lemma parse_a:
  "parse_expression 30 [token1 ''word'' ''word'' ''a'' 0 1] 0 = Ret (1, Node ''VAR'' (PyStr ''a''))"
  by (simp add: run_parser cong: and_then_weak_cong)

lemma parse_unclosed_list:
  "parse_expression 30 [
     token1 ''open'' ''lsquare'' ''['' 0 1, token1 ''number'' ''number'' ''1'' 1 2,
     token1 ''sep'' ''comma'' '','' 2 3, token1 ''space'' ''space'' '' '' 3 4,
     token1 ''number'' ''number'' ''2'' 4 5] 0 = Raise AttributeError"
  by (simp add: run_parser cong: and_then_weak_cong)

lemma parse_list_no_comma:
  "parse_expression 30 [
     token1 ''open'' ''lsquare'' ''['' 0 1, token1 ''number'' ''number'' ''1'' 1 2,
     token1 ''space'' ''space'' '' '' 2 3, token1 ''number'' ''number'' ''2'' 3 4,
     token1 ''close'' ''rsquare'' '']'' 4 5] 0 =
   Ret (5, Collection ''LIST'' [Node ''NUM'' (PyInt 1), Node ''NUM'' (PyInt 2)])"
  by (simp add: run_parser cong: and_then_weak_cong)

lemma parse_list_comma:
  "parse_expression 30 [
     token1 ''open'' ''lsquare'' ''['' 0 1, token1 ''number'' ''number'' ''1'' 1 2,
     token1 ''sep'' ''comma'' '','' 2 3, token1 ''space'' ''space'' '' '' 3 4,
     token1 ''number'' ''number'' ''2'' 4 5, token1 ''close'' ''rsquare'' '']'' 5 6] 0 =
   Ret (6, Collection ''LIST'' [Node ''NUM'' (PyInt 1), Node ''NUM'' (PyInt 2)])"
  by (simp add: run_parser cong: and_then_weak_cong)

lemma parse_call_no_comma:
  "parse_expression 30 [
     token1 ''word'' ''word'' ''f'' 0 1, token1 ''open'' ''lparen'' ''('' 1 2,
     token1 ''number'' ''number'' ''1'' 2 3, token1 ''space'' ''space'' '' '' 3 4,
     token1 ''number'' ''number'' ''2'' 4 5, token1 ''close'' ''rparen'' '')'' 5 6] 0 =
   Ret (6, Collection ''CALL'' [Node ''VAR'' (PyStr ''f''),
     Collection ''ARGS'' [Node ''NUM'' (PyInt 1), Node ''NUM'' (PyInt 2)]])"
  by (simp add: run_parser cong: and_then_weak_cong)

lemma parse_call_comma:
  "parse_expression 30 [
     token1 ''word'' ''word'' ''f'' 0 1, token1 ''open'' ''lparen'' ''('' 1 2,
     token1 ''number'' ''number'' ''1'' 2 3, token1 ''sep'' ''comma'' '','' 3 4,
     token1 ''space'' ''space'' '' '' 4 5, token1 ''number'' ''number'' ''2'' 5 6,
     token1 ''close'' ''rparen'' '')'' 6 7] 0 =
   Ret (7, Collection ''CALL'' [Node ''VAR'' (PyStr ''f''),
     Collection ''ARGS'' [Node ''NUM'' (PyInt 1), Node ''NUM'' (PyInt 2)]])"
  by (simp add: run_parser cong: and_then_weak_cong)

lemma parse_a_and_b:
  "parse_expression 30 [
     token1 ''word'' ''word'' ''a'' 0 1, token1 ''space'' ''space'' '' '' 1 2,
     token1 ''operator'' ''and'' ''&&'' 2 4, token1 ''space'' ''space'' '' '' 4 5,
     token1 ''word'' ''word'' ''b'' 5 6] 0 =
   Ret (5, Collection ''LOGICAL''
     [Node ''VAR'' (PyStr ''a''), Node ''OP'' (PyStr ''&&''), Node ''VAR'' (PyStr ''b'')])"
  by (simp add: run_parser cong: and_then_weak_cong)

lemma parse_empty_list:
  "parse_expression 30 [
     token1 ''open'' ''lsquare'' ''['' 0 1, token1 ''close'' ''rsquare'' '']'' 1 2] 0 =
   Ret (2, Collection ''LIST'' [])"
  by (simp add: run_parser cong: and_then_weak_cong)

lemma parse_world:
  "parse_expression 30 [
     token1 ''string'' ''apostrophe'' [CHR 0x27] 0 1,
     token1 ''word'' ''word'' [CHR ''w'', CHR 0x5C] 1 3,
     token1 ''string'' ''quotes'' [CHR 0x22] 3 4,
     token1 ''word'' ''word'' ''orld'' 4 8,
     token1 ''string'' ''apostrophe'' [CHR 0x27] 8 9] 0 =
   Ret (5, Node ''STR'' (PyStr (''w'' @ [CHR 0x5C, CHR 0x22] @ ''orld'')))"
  by (simp add: run_parser cong: and_then_weak_cong)

lemma parse_escaped_apostrophe:
  "parse_expression 30 [
     token1 ''string'' ''apostrophe'' [CHR 0x27] 0 1,
     token1 ''string'' ''escape'' [CHR 0x5C] 1 2,
     token1 ''string'' ''apostrophe'' [CHR 0x27] 2 3,
     token1 ''word'' ''word'' ''a'' 3 4,
     token1 ''string'' ''apostrophe'' [CHR 0x27] 4 5] 0 =
   Ret (5, Node ''STR'' (PyStr ([CHR 0x5C, CHR 0x27] @ ''a'')))"
  by (simp add: run_parser cong: and_then_weak_cong)

section \<open>Formatter\<close>

text \<open>
  The colour tables and \<^verbatim>\<open>style\<close>. \<^verbatim>\<open>tag(codes)\<close> is the escape sequence
  \<^verbatim>\<open>\033[codes m\<close>; it starts with the escape character, code point 27.
\<close>

definition font_code :: "(string \<times> nat) list" where
  "font_code = [(''roman'', 0), (''bold'', 1), (''italic'', 3), (''underline'', 4), (''blink'', 5),
     (''mark'', 7), (''strikethrough'', 9), (''default'', 0)]"

definition color_code :: "(string \<times> nat) list" where
  "color_code = [(''black'', 30), (''darkred'', 31), (''darkgreen'', 32), (''darkyellow'', 33),
     (''blue'', 34), (''darkmagenta'', 35), (''darkcyan'', 36), (''lightgrey'', 37),
     (''lightgray'', 37), (''grey'', 38), (''gray'', 38), (''darkgrey'', 90), (''darkgray'', 90),
     (''red'', 91), (''green'', 92), (''yellow'', 93), (''violet'', 94), (''magenta'', 95),
     (''cyan'', 96), (''white'', 97), (''default'', 38)]"

definition background_colors :: "(string \<times> nat) list" where
  "background_colors = [(''none'', 40), (''black'', 40), (''red'', 41), (''green'', 42),
     (''yellow'', 43), (''blue'', 44), (''magenta'', 45), (''cyan'', 46), (''white'', 47)]"

fun str_nat :: "nat \<Rightarrow> string" where
  "str_nat n = (if n < 10 then [''0123456789'' ! n]
     else str_nat (n div 10) @ [''0123456789'' ! (n mod 10)])"

definition str_int :: "int \<Rightarrow> string" where
  "str_int i = (if i < 0 then ''-'' @ str_nat (nat (- i)) else str_nat (nat i))"

fun join :: "string \<Rightarrow> string list \<Rightarrow> string" where
  "join sep [] = []"
| "join sep [s] = s"
| "join sep (s # t # ss) = s @ sep @ join sep (t # ss)"

definition tag :: "string \<Rightarrow> string" where
  "tag codes = [CHR 0x1B, CHR ''[''] @ codes @ ''m''"

definition END :: string where
  "END = tag (str_nat 0)"

definition code_style :: "string \<Rightarrow> nat option list \<Rightarrow> string" where
  \<comment> \<open>\<^verbatim>\<open>filter(None, codes)\<close> drops \<^verbatim>\<open>None\<close> and 0\<close>
  "code_style string codes =
     tag (join '';'' (map str_nat (concat (map (\<lambda>c. case c of None \<Rightarrow> [] | Some k \<Rightarrow> if k = 0 then [] else [k]) codes))))
       @ string @ END"

definition lookup_code :: "(string \<times> nat) list \<Rightarrow> string option \<Rightarrow> nat option" where
  \<comment> \<open>\<^verbatim>\<open>table.get(key)\<close>, where the key may be \<^verbatim>\<open>None\<close>\<close>
  "lookup_code table key = (case key of None \<Rightarrow> None | Some k \<Rightarrow> map_of table k)"

definition style :: "string \<Rightarrow> (string \<times> string) list \<Rightarrow> string" where
  "style string codes =
     (let font = lookup_code font_code (map_of codes ''font'');
          color = lookup_code color_code (map_of codes ''color'');
          bg = lookup_code background_colors (map_of codes ''bg'')
      in code_style string [color, font, bg])"

definition VAR_STYLE :: "(string \<times> string) list" where
  "VAR_STYLE = [(''color'', ''yellow''), (''font'', ''bold'')]"

definition NUM_STYLE :: "(string \<times> string) list" where
  "NUM_STYLE = [(''color'', ''magenta'')]"

definition STR_STYLE :: "(string \<times> string) list" where
  "STR_STYLE = [(''color'', ''green'')]"

definition py_str :: "pyval \<Rightarrow> string" where
  \<comment> \<open>\<^verbatim>\<open>str(value)\<close>, also what an f-string makes of the value\<close>
  "py_str v = (case v of PyNone \<Rightarrow> ''None'' | PyStr s \<Rightarrow> s | PyInt i \<Rightarrow> str_int i
     | PyFloat x \<Rightarrow> str_of_float x)"

text \<open>
  \<^verbatim>\<open>froot(el, indent=False)\<close>, the compact rendering. \<open>froot_element\<close> is the body of
  \<^verbatim>\<open>froot\<close> for an element with the given tag and value, where \<open>rs\<close> are the results of
  \<^verbatim>\<open>froot\<close> on its children in order: \<open>child rs k\<close> is \<^verbatim>\<open>froot(el[k])\<close>, an
  \<^verbatim>\<open>IndexError\<close> when there is no such child, and \<open>all_strings rs\<close> is the generator
  \<^verbatim>\<open>froot(c) for c in el\<close>, which stops at the first child that raises. A value that is
  not a string, where Python needs one, is a \<^verbatim>\<open>TypeError\<close>.
\<close>

definition child :: "(error + string) list \<Rightarrow> nat \<Rightarrow> error + string" where
  "child rs k = (if k < length rs then rs ! k else Inl IndexError)"

fun all_strings :: "(error + string) list \<Rightarrow> error + string list" where
  "all_strings [] = Inr []"
| "all_strings (r # rs) =
     (case r of Inl e \<Rightarrow> Inl e
      | Inr s \<Rightarrow> (case all_strings rs of Inl e \<Rightarrow> Inl e | Inr ss \<Rightarrow> Inr (s # ss)))"

definition joined :: "string \<Rightarrow> (error + string) list \<Rightarrow> error + string" where
  "joined sep rs = (case all_strings rs of Inl e \<Rightarrow> Inl e | Inr ss \<Rightarrow> Inr (join sep ss))"

definition two_children :: "(error + string) list \<Rightarrow> (string \<Rightarrow> string \<Rightarrow> string) \<Rightarrow> error + string" where
  "two_children rs f =
     (case child rs 0 of Inl e \<Rightarrow> Inl e
      | Inr a \<Rightarrow> (case child rs 1 of Inl e \<Rightarrow> Inl e | Inr b \<Rightarrow> Inr (f a b)))"

definition froot_element :: "string \<Rightarrow> pyval \<Rightarrow> (error + string) list \<Rightarrow> error + string" where
  "froot_element el_tag el_value rs =
     (if el_tag = ''UNOP'' then joined [] rs
      else if el_tag = ''PRODOP'' then joined [] rs
      else if el_tag = ''SUMOP'' then joined '' '' rs
      else if el_tag = ''COMPARE'' then joined '' '' rs
      else if el_tag = ''FUNC'' then two_children rs (\<lambda>a b. a @ '' -> '' @ b)
      else if el_tag = ''ASSIGN'' then two_children rs (\<lambda>a b. a @ '' := '' @ b)
      else if el_tag = ''OP'' then
        (case el_value of PyStr s \<Rightarrow> Inr s | _ \<Rightarrow> Inl (TypeError ''expected str instance''))
      else if el_tag = ''CALL'' then two_children rs (\<lambda>a b. a @ ''('' @ b @ '')'')
      else if el_tag = ''GET'' then two_children rs (\<lambda>a b. a @ ''['' @ b @ '']'')
      else if el_tag = ''PAREN'' then
        (case child rs 0 of Inl e \<Rightarrow> Inl e | Inr a \<Rightarrow> Inr (''('' @ a @ '')''))
      else if el_tag = ''LIST'' then
        (case joined '', '' rs of Inl e \<Rightarrow> Inl e | Inr s \<Rightarrow> Inr (''['' @ s @ '']''))
      else if el_tag = ''ARGS'' then joined '', '' rs
      else if el_tag = ''KEY'' then joined '', '' rs
      else if el_tag = ''NUM'' then Inr (style (py_str el_value) NUM_STYLE)
      else if el_tag = ''VAR'' then Inr (style (py_str el_value) VAR_STYLE)
      else if el_tag = ''STR'' then
        (case el_value of PyStr s \<Rightarrow> Inr (style ([CHR 0x27] @ s @ [CHR 0x27]) STR_STYLE)
         | _ \<Rightarrow> Inl (TypeError ''can only concatenate str''))
      else Inl (TypeError (''Invalid type '' @ el_tag)))"

fun froot :: "ast \<Rightarrow> error + string" where
  "froot (Node el_tag el_value) = froot_element el_tag el_value []"
| "froot (Collection el_tag children) = froot_element el_tag PyNone (map froot children)"

lemmas run_froot =
  froot_element_def joined_def two_children_def child_def style_def code_style_def
  lookup_code_def tag_def END_def py_str_def str_int_def VAR_STYLE_def NUM_STYLE_def
  STR_STYLE_def font_code_def color_code_def background_colors_def

lemma froot_var_a:
  "froot (Node ''VAR'' (PyStr ''a'')) = Inr ([CHR 0x1B] @ ''[93;1ma'' @ [CHR 0x1B] @ ''[0m'')"
  by (simp add: run_froot)

lemma froot_empty_list: "froot (Collection ''LIST'' []) = Inr ''[]''"
  by (simp add: run_froot)

lemma froot_logical:
  "froot (Collection ''LOGICAL'' children) = Inl (TypeError ''Invalid type LOGICAL'')"
  by (simp add: froot_element_def)

lemma froot_sumop_example:
  "froot (Collection ''SUMOP'' [Collection ''LIST'' [], Node ''OP'' (PyStr ''+''), Collection ''LIST'' []])
     = Inr ''[] + []''"
  by (simp add: run_froot)

lemma tokens_styled_a:
  "tokenize ([CHR 0x1B] @ ''[93;1ma'' @ [CHR 0x1B] @ ''[0m'') pattern = Raise AssertionError"
  by code_simp

section \<open>Claims about the parser and the formatter\<close>

lemma parse_text_a_eq_b_plus_c:
  "parse 30 ''a = b + c'' pattern = Ret (Collection ''COMPARE''
     [Node ''VAR'' (PyStr ''a''), Node ''OP'' (PyStr ''=''), Node ''VAR'' (PyStr ''b'')])"
  by (simp add: parse_def tokens_a_eq_b_plus_c parse_a_eq_b_plus_c)

lemma parse_text_a_eq_b:
  "parse 30 ''a = b'' pattern = Ret (Collection ''COMPARE''
     [Node ''VAR'' (PyStr ''a''), Node ''OP'' (PyStr ''=''), Node ''VAR'' (PyStr ''b'')])"
  by (simp add: parse_def tokens_a_eq_b parse_a_eq_b)

lemma parse_text_a_eq_paren:
  "parse 30 ''a = (b + c)'' pattern = Ret (Collection ''COMPARE''
     [Node ''VAR'' (PyStr ''a''), Node ''OP'' (PyStr ''=''),
      Collection ''PAREN'' [Collection ''SUMOP''
        [Node ''VAR'' (PyStr ''b''), Node ''OP'' (PyStr ''+''), Node ''VAR'' (PyStr ''c'')]]])"
  by (simp add: parse_def tokens_a_eq_paren parse_a_eq_paren)

lemma parse_text_a_mod_b: "parse 30 ''a % b'' pattern = Ret (Node ''VAR'' (PyStr ''a''))"
  by (simp add: parse_def tokens_a_mod_b parse_a_mod_b)

lemma parse_text_a: "parse 30 ''a'' pattern = Ret (Node ''VAR'' (PyStr ''a''))"
  by (simp add: parse_def tokens_a parse_a)

lemma parse_text_unclosed_list: "parse 30 ''[1, 2'' pattern = Raise AttributeError"
  by (simp add: parse_def tokens_unclosed_list parse_unclosed_list)

lemma parse_text_list_no_comma:
  "parse 30 ''[1 2]'' pattern = Ret (Collection ''LIST'' [Node ''NUM'' (PyInt 1), Node ''NUM'' (PyInt 2)])"
  by (simp add: parse_def tokens_list_no_comma parse_list_no_comma)

lemma parse_text_list_comma:
  "parse 30 ''[1, 2]'' pattern = Ret (Collection ''LIST'' [Node ''NUM'' (PyInt 1), Node ''NUM'' (PyInt 2)])"
  by (simp add: parse_def tokens_list_comma parse_list_comma)

lemma parse_text_call_no_comma:
  "parse 30 ''f(1 2)'' pattern = Ret (Collection ''CALL'' [Node ''VAR'' (PyStr ''f''),
     Collection ''ARGS'' [Node ''NUM'' (PyInt 1), Node ''NUM'' (PyInt 2)]])"
  by (simp add: parse_def tokens_call_no_comma parse_call_no_comma)

lemma parse_text_call_comma:
  "parse 30 ''f(1, 2)'' pattern = Ret (Collection ''CALL'' [Node ''VAR'' (PyStr ''f''),
     Collection ''ARGS'' [Node ''NUM'' (PyInt 1), Node ''NUM'' (PyInt 2)]])"
  by (simp add: parse_def tokens_call_comma parse_call_comma)

lemma parse_text_a_and_b:
  "parse 30 ''a && b'' pattern = Ret (Collection ''LOGICAL''
     [Node ''VAR'' (PyStr ''a''), Node ''OP'' (PyStr ''&&''), Node ''VAR'' (PyStr ''b'')])"
  by (simp add: parse_def tokens_a_and_b parse_a_and_b)

lemma parse_text_empty_list: "parse 30 ''[]'' pattern = Ret (Collection ''LIST'' [])"
  by (simp add: parse_def tokens_empty_list parse_empty_list)

lemma parse_text_world:
  "parse 30 ([CHR 0x27] @ ''w'' @ [CHR 0x5C, CHR 0x22] @ ''orld'' @ [CHR 0x27]) pattern =
     Ret (Node ''STR'' (PyStr (''w'' @ [CHR 0x5C, CHR 0x22] @ ''orld'')))"
  using tokens_world parse_world by (simp add: parse_def)

lemma parse_text_escaped_apostrophe:
  "parse 30 ([CHR 0x27, CHR 0x5C, CHR 0x27] @ ''a'' @ [CHR 0x27]) pattern =
     Ret (Node ''STR'' (PyStr ([CHR 0x5C, CHR 0x27] @ ''a'')))"
  using tokens_escaped_apostrophe parse_escaped_apostrophe by (simp add: parse_def)

lemma parse_text_styled_a:
  "parse 30 ([CHR 0x1B] @ ''[93;1ma'' @ [CHR 0x1B] @ ''[0m'') pattern = Raise AssertionError"
  using tokens_styled_a by (simp add: parse_def)

section \<open>More fuel does not change a result\<close>

text \<open>
  \<open>settled f g\<close>: wherever \<open>f\<close> comes back, with a value or an error, \<open>g\<close> gives the same.
  Every function of the parser with less fuel is settled by the one with more: fuel
  only decides whether a call comes back, never what it returns.
\<close>

definition settled :: "('a \<Rightarrow> 'b \<Rightarrow> 'c res) \<Rightarrow> ('a \<Rightarrow> 'b \<Rightarrow> 'c res) \<Rightarrow> bool" where
  "settled f g = (\<forall>x y. f x y \<noteq> Unfinished \<longrightarrow> g x y = f x y)"

definition settled_loop :: "('a \<Rightarrow> 'b \<Rightarrow> 'd \<Rightarrow> 'c res) \<Rightarrow> ('a \<Rightarrow> 'b \<Rightarrow> 'd \<Rightarrow> 'c res) \<Rightarrow> bool" where
  "settled_loop f g = (\<forall>x y z. f x y z \<noteq> Unfinished \<longrightarrow> g x y z = f x y z)"

lemma settled_refl: "settled f f" "settled_loop w w"
  by (simp_all add: settled_def settled_loop_def)

lemma settled_trans: "settled f g \<Longrightarrow> settled g h \<Longrightarrow> settled f h"
  by (auto simp: settled_def)

lemma settled_loop_trans: "settled_loop f g \<Longrightarrow> settled_loop g h \<Longrightarrow> settled_loop f h"
  by (auto simp: settled_loop_def)

lemma parse_collection_body_settled:
  "settled_loop w w' \<Longrightarrow> settled (parse_collection_body w) (parse_collection_body w')"
  by (simp add: settled_def settled_loop_def parse_collection_body_def)

lemma parse_collection_while_body_settled:
  "settled f f' \<Longrightarrow> settled_loop w w' \<Longrightarrow>
   settled_loop (parse_collection_while_body f w) (parse_collection_while_body f' w')"
  unfolding settled_def settled_loop_def parse_collection_while_body_def
  by (auto simp: Let_def and_then_def lift_def split: prod.splits res.splits sum.splits option.splits)

lemma parse_term_body_settled:
  "settled f f' \<Longrightarrow> settled w w' \<Longrightarrow>
   settled (parse_term_body f w) (parse_term_body f' w')"
  unfolding settled_def settled_loop_def parse_term_body_def
  by (auto simp: Let_def and_then_def lift_def split: prod.splits res.splits sum.splits option.splits)

lemma parse_post_expression_body_settled:
  "settled f f' \<Longrightarrow> settled_loop w w' \<Longrightarrow>
   settled (parse_post_expression_body f w) (parse_post_expression_body f' w')"
  unfolding settled_def settled_loop_def parse_post_expression_body_def
  by (auto simp: Let_def and_then_def lift_def split: prod.splits res.splits sum.splits option.splits)

lemma parse_post_expression_while_body_settled:
  "settled f f' \<Longrightarrow> settled_loop w w' \<Longrightarrow>
   settled_loop (parse_post_expression_while_body f w) (parse_post_expression_while_body f' w')"
  unfolding settled_def settled_loop_def parse_post_expression_while_body_def
  by (auto simp: Let_def and_then_def lift_def split: prod.splits res.splits sum.splits option.splits)

lemma parse_prod_expression_body_settled:
  "settled f f' \<Longrightarrow> settled_loop w w' \<Longrightarrow>
   settled (parse_prod_expression_body f w) (parse_prod_expression_body f' w')"
  unfolding settled_def settled_loop_def parse_prod_expression_body_def
  by (auto simp: Let_def and_then_def lift_def split: prod.splits res.splits sum.splits option.splits)

lemma parse_prod_expression_while_body_settled:
  "settled f f' \<Longrightarrow> settled_loop w w' \<Longrightarrow>
   settled_loop (parse_prod_expression_while_body f w) (parse_prod_expression_while_body f' w')"
  unfolding settled_def settled_loop_def parse_prod_expression_while_body_def
  by (auto simp: Let_def and_then_def lift_def split: prod.splits res.splits sum.splits option.splits)

lemma parse_sum_expression_body_settled:
  "settled f f' \<Longrightarrow> settled_loop w w' \<Longrightarrow>
   settled (parse_sum_expression_body f w) (parse_sum_expression_body f' w')"
  unfolding settled_def settled_loop_def parse_sum_expression_body_def
  by (auto simp: Let_def and_then_def lift_def split: prod.splits res.splits sum.splits option.splits)

lemma parse_sum_expression_while_body_settled:
  "settled f f' \<Longrightarrow> settled_loop w w' \<Longrightarrow>
   settled_loop (parse_sum_expression_while_body f w) (parse_sum_expression_while_body f' w')"
  unfolding settled_def settled_loop_def parse_sum_expression_while_body_def
  by (auto simp: Let_def and_then_def lift_def split: prod.splits res.splits sum.splits option.splits)

lemma parse_comp_expression_body_settled:
  "settled f f' \<Longrightarrow> settled_loop w w' \<Longrightarrow>
   settled (parse_comp_expression_body f w) (parse_comp_expression_body f' w')"
  unfolding settled_def settled_loop_def parse_comp_expression_body_def
  by (auto simp: Let_def and_then_def lift_def split: prod.splits res.splits sum.splits option.splits)

lemma parse_comp_expression_while_body_settled:
  "settled f f' \<Longrightarrow> settled_loop w w' \<Longrightarrow>
   settled_loop (parse_comp_expression_while_body f w) (parse_comp_expression_while_body f' w')"
  unfolding settled_def settled_loop_def parse_comp_expression_while_body_def
  by (auto simp: Let_def and_then_def lift_def split: prod.splits res.splits sum.splits option.splits)

lemma parse_logical_expression_body_settled:
  "settled f f' \<Longrightarrow> settled_loop w w' \<Longrightarrow>
   settled (parse_logical_expression_body f w) (parse_logical_expression_body f' w')"
  unfolding settled_def settled_loop_def parse_logical_expression_body_def
  by (auto simp: Let_def and_then_def lift_def split: prod.splits res.splits sum.splits option.splits)

lemma parse_logical_expression_while_body_settled:
  "settled f f' \<Longrightarrow> settled_loop w w' \<Longrightarrow>
   settled_loop (parse_logical_expression_while_body f w) (parse_logical_expression_while_body f' w')"
  unfolding settled_def settled_loop_def parse_logical_expression_while_body_def
  by (auto simp: Let_def and_then_def lift_def split: prod.splits res.splits sum.splits option.splits)

lemma parse_function_expression_body_settled:
  "settled f f' \<Longrightarrow>
   settled (parse_function_expression_body f) (parse_function_expression_body f')"
  unfolding settled_def settled_loop_def parse_function_expression_body_def
  by (auto simp: Let_def and_then_def lift_def split: prod.splits res.splits sum.splits option.splits)

lemma parse_expression_body_settled:
  "settled f f' \<Longrightarrow>
   settled (parse_expression_body f) (parse_expression_body f')"
  unfolding settled_def settled_loop_def parse_expression_body_def
  by (auto simp: Let_def and_then_def lift_def split: prod.splits res.splits sum.splits option.splits)

text \<open>All functions of the parser at once, as \<open>parsers_with\<close> holds them.\<close>

definition parsers_settled :: "parsers \<Rightarrow> parsers \<Rightarrow> bool" where
  "parsers_settled P Q =
     (settled (p_collection P) (p_collection Q) \<and>
      settled_loop (p_collection_while P) (p_collection_while Q) \<and>
      settled (p_term P) (p_term Q) \<and>
      settled (p_post P) (p_post Q) \<and>
      settled_loop (p_post_while P) (p_post_while Q) \<and>
      settled (p_prod P) (p_prod Q) \<and>
      settled_loop (p_prod_while P) (p_prod_while Q) \<and>
      settled (p_sum P) (p_sum Q) \<and>
      settled_loop (p_sum_while P) (p_sum_while Q) \<and>
      settled (p_comp P) (p_comp Q) \<and>
      settled_loop (p_comp_while P) (p_comp_while Q) \<and>
      settled (p_logical P) (p_logical Q) \<and>
      settled_loop (p_logical_while P) (p_logical_while Q) \<and>
      settled (p_function P) (p_function Q))"

lemmas body_settled =
  parse_collection_body_settled parse_collection_while_body_settled parse_term_body_settled
  parse_post_expression_body_settled parse_post_expression_while_body_settled
  parse_prod_expression_body_settled parse_prod_expression_while_body_settled
  parse_sum_expression_body_settled parse_sum_expression_while_body_settled
  parse_comp_expression_body_settled parse_comp_expression_while_body_settled
  parse_logical_expression_body_settled parse_logical_expression_while_body_settled
  parse_function_expression_body_settled

lemma parsers_settled_Suc: "parsers_settled (parsers_with n) (parsers_with (Suc n))"
proof (induction n)
  case 0
  show ?case
    by (simp add: parsers_settled_def settled_def settled_loop_def)
next
  case (Suc n)
  then show ?case
    unfolding parsers_settled_def parsers_with.simps(2) [of "Suc n"]
    by (simp add: body_settled)
qed

lemma parsers_settled_trans:
  "parsers_settled P Q \<Longrightarrow> parsers_settled Q R \<Longrightarrow> parsers_settled P R"
  unfolding parsers_settled_def
  by (meson settled_trans settled_loop_trans)

lemma parsers_settled_le: "n \<le> m \<Longrightarrow> parsers_settled (parsers_with n) (parsers_with m)"
proof (induction m)
  case 0
  then show ?case by (simp add: parsers_settled_def settled_refl)
next
  case (Suc m)
  show ?case
  proof (cases "n = Suc m")
    case True
    then show ?thesis by (simp add: parsers_settled_def settled_refl)
  next
    case False
    with Suc.prems have "n \<le> m" by simp
    from Suc.IH [OF this] parsers_settled_Suc [of m] show ?thesis
      by (rule parsers_settled_trans)
  qed
qed

lemma parse_expression_more_fuel:
  assumes "parse_expression n tks i = r" and "r \<noteq> Unfinished" and "n \<le> m"
  shows "parse_expression m tks i = r"
proof -
  from assms(3) have "settled (parse_logical_expression n) (parse_logical_expression m)"
    using parsers_settled_le [of n m]
    by (simp add: parsers_settled_def parse_logical_expression_def)
  then have "settled (parse_expression n) (parse_expression m)"
    unfolding parse_expression_def by (rule parse_expression_body_settled)
  with assms(1,2) show ?thesis
    by (auto simp: settled_def)
qed

lemma parse_more_fuel:
  assumes "parse n text p = r" and "r \<noteq> Unfinished" and "n \<le> m"
  shows "parse m text p = r"
proof (cases "tokenize text p")
  case (Ret tks)
  with assms(1,2) have u: "parse_expression n tks 0 \<noteq> Unfinished"
    by (auto simp: parse_def)
  have "parse_expression m tks 0 = parse_expression n tks 0"
    using parse_expression_more_fuel [OF refl u assms(3)] .
  with Ret assms(1) show ?thesis
    by (simp add: parse_def)
next
  case (Raise e)
  with assms(1) show ?thesis by (simp add: parse_def)
next
  case Unfinished
  with assms(1) show ?thesis by (simp add: parse_def)
qed

section \<open>What the parser builds\<close>

lemma parse_string_loop_value:
  "parse_string_loop tks i start rest j escape = Some (k, e) \<Longrightarrow>
   e = Node ''STR'' (PyStr (concat (map tok_string (slice tks i (k - 1)))))"
  by (induction rest arbitrary: j escape) (auto split: if_splits)

lemma parse_string_value:
  "parse_string tks i = Inr (Some (k, e)) \<Longrightarrow>
   e = Node ''STR'' (PyStr (concat (map tok_string (slice tks i (k - 1)))))"
  by (auto simp: parse_string_def split: option.splits dest: parse_string_loop_value)

text \<open>
  Three shapes that the functions of the parser share: a call followed by a loop, the
  loop of a binary operator level, and an expression with an optional second part.
\<close>

definition then_loop :: "expr_parser \<Rightarrow> expr_loop \<Rightarrow> expr_parser" where
  "then_loop f w tks i = and_then (f tks i) (\<lambda>(i, left). w tks i left)"

definition binary_while :: "string set \<Rightarrow> string \<Rightarrow> expr_parser \<Rightarrow> expr_loop \<Rightarrow> expr_loop" where
  "binary_while ops el_tag f w tks i left =
     (let (j, mid) = get tks i
      in if tok_variant mid \<in> ops then
        and_then (f tks j) (\<lambda>(i, right).
          w tks i (Collection el_tag [left, Node ''OP'' (PyStr (tok_string mid)), right]))
      else Ret (i, left))"

definition optional_pair :: "string \<Rightarrow> string \<Rightarrow> expr_parser \<Rightarrow> expr_parser" where
  "optional_pair op el_tag f tks i =
     and_then (f tks i) (\<lambda>(i, left).
       let (j, mid) = get tks i
       in if tok_variant mid = op then
         and_then (f tks j) (\<lambda>(i, right). Ret (i, Collection el_tag [left, right]))
       else Ret (i, left))"

lemma bodies_as_shapes:
  "parse_post_expression_body = then_loop"
  "parse_prod_expression_body = then_loop"
  "parse_sum_expression_body = then_loop"
  "parse_comp_expression_body = then_loop"
  "parse_logical_expression_body = then_loop"
  "parse_prod_expression_while_body = binary_while {''multiply'', ''divide''} ''PRODOP''"
  "parse_sum_expression_while_body = binary_while {''add'', ''minus''} ''SUMOP''"
  "parse_comp_expression_while_body =
     binary_while {''equals'', ''notEquals'', ''greater'', ''lesser''} ''COMPARE''"
  "parse_logical_expression_while_body = binary_while {''and'', ''or''} ''LOGICAL''"
  "parse_function_expression_body = optional_pair ''arrow'' ''FUNC''"
  "parse_expression_body = optional_pair ''assign'' ''ASSIGN''"
  by (intro ext, simp add: then_loop_def binary_while_def optional_pair_def
      parse_post_expression_body_def parse_prod_expression_body_def parse_sum_expression_body_def
      parse_comp_expression_body_def parse_logical_expression_body_def
      parse_prod_expression_while_body_def parse_sum_expression_while_body_def
      parse_comp_expression_while_body_def parse_logical_expression_while_body_def
      parse_function_expression_body_def parse_expression_body_def)+

lemma and_then_pairE:
  assumes "and_then r (\<lambda>(a, b). g a b) = Ret y"
  obtains a b where "r = Ret (a, b)" and "g a b = Ret y"
  using assms by (cases r) (auto simp: and_then_def)

text \<open>
  \<open>compare_ok\<close>: every \<^verbatim>\<open>COMPARE\<close> node of the tree has three children, and the third,
  its right operand, is not a \<^verbatim>\<open>SUMOP\<close> node.
\<close>

fun tag_of :: "ast \<Rightarrow> string" where
  "tag_of (Node el_tag el_value) = el_tag"
| "tag_of (Collection el_tag children) = el_tag"

fun compare_ok :: "ast \<Rightarrow> bool" where
  "compare_ok (Node el_tag el_value) = True"
| "compare_ok (Collection el_tag children) =
     ((el_tag = ''COMPARE'' \<longrightarrow> length children = 3 \<and> tag_of (children ! 2) \<noteq> ''SUMOP'') \<and>
      list_all compare_ok children)"

text \<open>
  \<open>yields P f\<close>: whatever \<open>f\<close> returns satisfies \<open>P\<close>; \<open>yields_loop P Q w\<close>: a loop
  entered with a left side that satisfies \<open>P\<close> returns something that satisfies \<open>Q\<close>.
\<close>

definition yields :: "('r \<Rightarrow> bool) \<Rightarrow> (token list \<Rightarrow> int \<Rightarrow> (int \<times> 'r) res) \<Rightarrow> bool" where
  "yields P f = (\<forall>tks i j e. f tks i = Ret (j, e) \<longrightarrow> P e)"

definition yields_loop :: "('r \<Rightarrow> bool) \<Rightarrow> ('r \<Rightarrow> bool) \<Rightarrow> (token list \<Rightarrow> int \<Rightarrow> 'r \<Rightarrow> (int \<times> 'r) res) \<Rightarrow> bool" where
  "yields_loop P Q w = (\<forall>tks i left j e. P left \<longrightarrow> w tks i left = Ret (j, e) \<longrightarrow> Q e)"

lemma yieldsD: "yields P f \<Longrightarrow> f tks i = Ret (j, e) \<Longrightarrow> P e"
  by (auto simp: yields_def)

lemma yields_loopD: "yields_loop P Q w \<Longrightarrow> w tks i left = Ret (j, e) \<Longrightarrow> P left \<Longrightarrow> Q e"
  by (auto simp: yields_loop_def)

lemma yields_weaken: "yields P f \<Longrightarrow> (\<And>e. P e \<Longrightarrow> Q e) \<Longrightarrow> yields Q f"
  by (auto simp: yields_def)

definition operand :: "ast \<Rightarrow> bool" where
  "operand e = (compare_ok e \<and> tag_of e \<noteq> ''SUMOP'')"

lemma then_loop_yields:
  assumes "yields P f" and "yields_loop P Q w"
  shows "yields Q (then_loop f w)"
  unfolding yields_def
proof (intro allI impI)
  fix tks i j e
  assume "then_loop f w tks i = Ret (j, e)"
  then obtain a b where "f tks i = Ret (a, b)" and "w tks a b = Ret (j, e)"
    unfolding then_loop_def by (rule and_then_pairE)
  with assms show "Q e"
    by (meson yieldsD yields_loopD)
qed

lemma binary_while_yields:
  assumes f: "yields R f" and w: "yields_loop P Q w"
    and build: "\<And>left s right. P' left \<Longrightarrow> R right \<Longrightarrow>
      P (Collection el_tag [left, Node ''OP'' (PyStr s), right])"
    and stop: "\<And>left. P' left \<Longrightarrow> Q left"
  shows "yields_loop P' Q (binary_while ops el_tag f w)"
  unfolding yields_loop_def
proof (intro allI impI)
  fix tks i left j e
  assume l: "P' left" and r: "binary_while ops el_tag f w tks i left = Ret (j, e)"
  obtain k mid where g: "get tks i = (k, mid)" by (cases "get tks i")
  show "Q e"
  proof (cases "tok_variant mid \<in> ops")
    case True
    with r g have "and_then (f tks k) (\<lambda>(i, right).
        w tks i (Collection el_tag [left, Node ''OP'' (PyStr (tok_string mid)), right])) = Ret (j, e)"
      by (simp add: binary_while_def)
    then obtain a b where fa: "f tks k = Ret (a, b)" and
      wa: "w tks a (Collection el_tag [left, Node ''OP'' (PyStr (tok_string mid)), b]) = Ret (j, e)"
      by (rule and_then_pairE)
    from yieldsD [OF f fa] l have "P (Collection el_tag [left, Node ''OP'' (PyStr (tok_string mid)), b])"
      by (simp add: build)
    from yields_loopD [OF w wa this] show ?thesis .
  next
    case False
    with r g have "e = left" by (simp add: binary_while_def)
    with l show ?thesis by (simp add: stop)
  qed
qed

lemma optional_pair_yields:
  assumes f: "yields P f"
    and build: "\<And>left right. P left \<Longrightarrow> P right \<Longrightarrow> P (Collection el_tag [left, right])"
  shows "yields P (optional_pair op el_tag f)"
  unfolding yields_def
proof (intro allI impI)
  fix tks i j e
  assume "optional_pair op el_tag f tks i = Ret (j, e)"
  then obtain a left where fa: "f tks i = Ret (a, left)" and
    r: "(let (j, mid) = get tks a
         in if tok_variant mid = op then
           and_then (f tks j) (\<lambda>(i, right). Ret (i, Collection el_tag [left, right]))
         else Ret (a, left)) = Ret (j, e)"
    unfolding optional_pair_def by (rule and_then_pairE)
  obtain k mid where g: "get tks a = (k, mid)" by (cases "get tks a")
  from yieldsD [OF f fa] have l: "P left" .
  show "P e"
  proof (cases "tok_variant mid = op")
    case True
    with r g have "and_then (f tks k) (\<lambda>(i, right). Ret (i, Collection el_tag [left, right])) = Ret (j, e)"
      by simp
    then obtain b right where fb: "f tks k = Ret (b, right)" and "e = Collection el_tag [left, right]"
      by (rule and_then_pairE) simp
    with yieldsD [OF f fb] l show ?thesis by (simp add: build)
  next
    case False
    with r g l show ?thesis by simp
  qed
qed

lemma parse_collection_body_ok:
  assumes "yields_loop (list_all compare_ok) (list_all compare_ok) w"
  shows "yields (list_all compare_ok) (parse_collection_body w)"
  unfolding yields_def parse_collection_body_def
  using yields_loopD [OF assms, of _ _ "[]"] by simp

lemma parse_collection_while_body_ok:
  assumes f: "yields compare_ok f" and w: "yields_loop (list_all compare_ok) (list_all compare_ok) w"
  shows "yields_loop (list_all compare_ok) (list_all compare_ok) (parse_collection_while_body f w)"
  unfolding yields_loop_def
proof (intro allI impI)
  fix tks i and arguments :: "ast list" and j e
  assume l: "list_all compare_ok arguments"
    and r: "parse_collection_while_body f w tks i arguments = Ret (j, e)"
  show "list_all compare_ok e"
  proof (cases "get_token tks i")
    case None
    with r show ?thesis by (simp add: parse_collection_while_body_def)
  next
    case (Some t)
    show ?thesis
    proof (cases "tok_type t \<noteq> ''close''")
      case True
      with r Some have "and_then (f tks i) (\<lambda>(i, expr). let (j, token) = get tks i
          in w tks (if tok_variant token = ''comma'' then j else i) (arguments @ [expr])) = Ret (j, e)"
        by (simp add: parse_collection_while_body_def)
      then obtain a b where fa: "f tks i = Ret (a, b)" and
        wa: "(let (j, token) = get tks a
          in w tks (if tok_variant token = ''comma'' then j else a) (arguments @ [b])) = Ret (j, e)"
        by (rule and_then_pairE)
      obtain k token where g: "get tks a = (k, token)" by (cases "get tks a")
      from yieldsD [OF f fa] l have "list_all compare_ok (arguments @ [b])" by simp
      moreover from wa g have
        "w tks (if tok_variant token = ''comma'' then k else a) (arguments @ [b]) = Ret (j, e)"
        by simp
      ultimately show ?thesis using yields_loopD [OF w] by blast
    next
      case False
      with r Some l show ?thesis
        by (auto simp: parse_collection_while_body_def and_then_Ret)
    qed
  qed
qed

lemma parse_term_body_ok:
  assumes c: "yields (list_all compare_ok) c" and t: "yields operand t"
  shows "yields operand (parse_term_body c t)"
  unfolding yields_def
proof (intro allI impI)
  fix tks i j e
  assume r: "parse_term_body c t tks i = Ret (j, e)"
  obtain k token where g: "get tks i = (k, token)" by (cases "get tks i")
  consider (is_word) "tok_type token = ''word''"
    | (is_open) "tok_type token = ''open''"
    | (is_number) "tok_type token = ''number''"
    | (is_string) "tok_type token = ''string''"
    | (is_operator) "tok_type token = ''operator''"
    | (is_other) "tok_type token \<notin> {''word'', ''open'', ''number'', ''string'', ''operator''}"
    by auto
  then show "operand e"
  proof cases
    case is_word
    with r g show ?thesis by (auto simp: parse_term_body_def operand_def)
  next
    case is_open
    with r g have "and_then (c tks k) (\<lambda>(i, coll).
          if tok_variant token = ''lsquare'' then Ret (i, Collection ''LIST'' coll)
          else if tok_variant token = ''lparen'' then Ret (i, Collection ''PAREN'' coll)
          else Raise (NotImplementedError (tok_variant token))) = Ret (j, e)"
      by (simp add: parse_term_body_def)
    then obtain a coll where ca: "c tks k = Ret (a, coll)" and
      e: "(if tok_variant token = ''lsquare'' then Ret (a, Collection ''LIST'' coll)
          else if tok_variant token = ''lparen'' then Ret (a, Collection ''PAREN'' coll)
          else Raise (NotImplementedError (tok_variant token))) = Ret (j, e)"
      by (rule and_then_pairE)
    from yieldsD [OF c ca] e show ?thesis
      by (auto simp: operand_def split: if_splits)
  next
    case is_number
    with r g show ?thesis by (auto simp: parse_term_body_def operand_def)
  next
    case is_string
    with r g show ?thesis
      by (auto simp: parse_term_body_def operand_def split: sum.splits option.splits
          dest!: parse_string_value)
  next
    case is_operator
    show ?thesis
    proof (cases "tok_variant token \<in> {''add'', ''minus''}")
      case True
      with r g is_operator have "and_then (t tks k) (\<lambda>(i, arg).
          Ret (i, Collection ''UNOP'' [Node ''OP'' (PyStr (tok_string token)), arg])) = Ret (j, e)"
        by (simp add: parse_term_body_def)
      then obtain a arg where ta: "t tks k = Ret (a, arg)" and
        "e = Collection ''UNOP'' [Node ''OP'' (PyStr (tok_string token)), arg]"
        by (rule and_then_pairE) simp
      with yieldsD [OF t ta] show ?thesis
        by (simp add: operand_def)
    next
      case False
      with r g is_operator show ?thesis by (simp add: parse_term_body_def)
    qed
  next
    case is_other
    with r g show ?thesis by (simp add: parse_term_body_def)
  qed
qed

lemma parse_post_expression_while_body_ok:
  assumes c: "yields (list_all compare_ok) c" and w: "yields_loop operand operand w"
  shows "yields_loop operand operand (parse_post_expression_while_body c w)"
  unfolding yields_loop_def
proof (intro allI impI)
  fix tks i left j e
  assume l: "operand left" and r: "parse_post_expression_while_body c w tks i left = Ret (j, e)"
  obtain k right where g: "get tks i = (k, right)" by (cases "get tks i")
  show "operand e"
  proof (cases "tok_type right = ''open''")
    case True
    with r g have "and_then (c tks k) (\<lambda>(i, coll).
          if tok_variant right = ''lparen'' then
            w tks i (Collection ''CALL'' [left, Collection ''ARGS'' coll])
          else if tok_variant right = ''lsquare'' then
            w tks i (Collection ''GET'' [left, Collection ''KEY'' coll])
          else Raise (NotImplementedError (tok_variant right))) = Ret (j, e)"
      by (simp add: parse_post_expression_while_body_def)
    then obtain a coll where ca: "c tks k = Ret (a, coll)" and
      e: "(if tok_variant right = ''lparen'' then
            w tks a (Collection ''CALL'' [left, Collection ''ARGS'' coll])
          else if tok_variant right = ''lsquare'' then
            w tks a (Collection ''GET'' [left, Collection ''KEY'' coll])
          else Raise (NotImplementedError (tok_variant right))) = Ret (j, e)"
      by (rule and_then_pairE)
    from yieldsD [OF c ca] l have
      "operand (Collection ''CALL'' [left, Collection ''ARGS'' coll])"
      "operand (Collection ''GET'' [left, Collection ''KEY'' coll])"
      by (simp_all add: operand_def)
    with e show ?thesis
      using yields_loopD [OF w] by (auto split: if_splits)
  next
    case False
    with r g l show ?thesis by (simp add: parse_post_expression_while_body_def)
  qed
qed

definition parsers_ok :: "parsers \<Rightarrow> bool" where
  "parsers_ok P =
     (yields (list_all compare_ok) (p_collection P) \<and>
      yields_loop (list_all compare_ok) (list_all compare_ok) (p_collection_while P) \<and>
      yields operand (p_term P) \<and>
      yields operand (p_post P) \<and>
      yields_loop operand operand (p_post_while P) \<and>
      yields operand (p_prod P) \<and>
      yields_loop operand operand (p_prod_while P) \<and>
      yields compare_ok (p_sum P) \<and>
      yields_loop compare_ok compare_ok (p_sum_while P) \<and>
      yields compare_ok (p_comp P) \<and>
      yields_loop compare_ok compare_ok (p_comp_while P) \<and>
      yields compare_ok (p_logical P) \<and>
      yields_loop compare_ok compare_ok (p_logical_while P) \<and>
      yields compare_ok (p_function P))"

lemma parsers_with_ok: "parsers_ok (parsers_with n)"
proof (induction n)
  case 0
  show ?case
    by (simp add: parsers_ok_def yields_def yields_loop_def)
next
  case (Suc n)
  let ?P = "parsers_with n"
  from Suc have
    c: "yields (list_all compare_ok) (p_collection ?P)" and
    cw: "yields_loop (list_all compare_ok) (list_all compare_ok) (p_collection_while ?P)" and
    t: "yields operand (p_term ?P)" and
    po: "yields operand (p_post ?P)" and
    pow: "yields_loop operand operand (p_post_while ?P)" and
    pr: "yields operand (p_prod ?P)" and
    prw: "yields_loop operand operand (p_prod_while ?P)" and
    s: "yields compare_ok (p_sum ?P)" and
    sw: "yields_loop compare_ok compare_ok (p_sum_while ?P)" and
    co: "yields compare_ok (p_comp ?P)" and
    cow: "yields_loop compare_ok compare_ok (p_comp_while ?P)" and
    lo: "yields compare_ok (p_logical ?P)" and
    low: "yields_loop compare_ok compare_ok (p_logical_while ?P)" and
    fu: "yields compare_ok (p_function ?P)"
    by (simp_all add: parsers_ok_def)
  have 1: "yields (list_all compare_ok) (parse_collection_body (p_collection_while ?P))"
    using cw by (rule parse_collection_body_ok)
  have 2: "yields_loop (list_all compare_ok) (list_all compare_ok)
      (parse_collection_while_body (p_function ?P) (p_collection_while ?P))"
    using fu cw by (rule parse_collection_while_body_ok)
  have 3: "yields operand (parse_term_body (p_collection ?P) (p_term ?P))"
    using c t by (rule parse_term_body_ok)
  have 4: "yields operand (parse_post_expression_body (p_term ?P) (p_post_while ?P))"
    unfolding bodies_as_shapes using t pow by (rule then_loop_yields)
  have 5: "yields_loop operand operand
      (parse_post_expression_while_body (p_collection ?P) (p_post_while ?P))"
    using c pow by (rule parse_post_expression_while_body_ok)
  have 6: "yields operand (parse_prod_expression_body (p_post ?P) (p_prod_while ?P))"
    unfolding bodies_as_shapes using po prw by (rule then_loop_yields)
  have 7: "yields_loop operand operand
      (parse_prod_expression_while_body (p_post ?P) (p_prod_while ?P))"
    unfolding bodies_as_shapes using po prw
    by (rule binary_while_yields) (simp_all add: operand_def)
  have 8: "yields compare_ok (parse_sum_expression_body (p_prod ?P) (p_sum_while ?P))"
    unfolding bodies_as_shapes
    by (rule then_loop_yields [OF yields_weaken [OF pr] sw]) (simp add: operand_def)
  have 9: "yields_loop compare_ok compare_ok
      (parse_sum_expression_while_body (p_prod ?P) (p_sum_while ?P))"
    unfolding bodies_as_shapes using pr sw
    by (rule binary_while_yields) (simp_all add: operand_def)
  have 10: "yields compare_ok (parse_comp_expression_body (p_sum ?P) (p_comp_while ?P))"
    unfolding bodies_as_shapes using s cow by (rule then_loop_yields)
  have 11: "yields_loop compare_ok compare_ok
      (parse_comp_expression_while_body (p_prod ?P) (p_comp_while ?P))"
    unfolding bodies_as_shapes using pr cow
    by (rule binary_while_yields) (simp_all add: operand_def)
  have 12: "yields compare_ok (parse_logical_expression_body (p_comp ?P) (p_logical_while ?P))"
    unfolding bodies_as_shapes using co low by (rule then_loop_yields)
  have 13: "yields_loop compare_ok compare_ok
      (parse_logical_expression_while_body (p_comp ?P) (p_logical_while ?P))"
    unfolding bodies_as_shapes
    by (rule binary_while_yields [OF co low]) simp_all
  have 14: "yields compare_ok (parse_function_expression_body (p_logical ?P))"
    unfolding bodies_as_shapes using lo by (rule optional_pair_yields) simp
  from 1 2 3 4 5 6 7 8 9 10 11 12 13 14 show ?case
    by (simp add: parsers_ok_def)
qed

lemma parse_expression_compare_ok:
  "parse_expression n tks i = Ret (j, root) \<Longrightarrow> compare_ok root"
proof -
  have "yields compare_ok (parse_logical_expression n)"
    using parsers_with_ok [of n] by (simp add: parsers_ok_def parse_logical_expression_def)
  then have "yields compare_ok (parse_expression n)"
    unfolding parse_expression_def bodies_as_shapes by (rule optional_pair_yields) simp
  then show "parse_expression n tks i = Ret (j, root) \<Longrightarrow> compare_ok root"
    by (rule yieldsD)
qed

lemma parse_compare_ok: "parse n text p = Ret root \<Longrightarrow> compare_ok root"
  by (auto simp: parse_def and_then_Ret dest: parse_expression_compare_ok)

end
